theory Spec2Isabelle
  imports Main "HOL-Library.AList" "HOL-Library.Sublist"
begin

section \<open>Python strings\<close>

text \<open>
  A Python \<open>str\<close> is modelled as a \<open>string\<close> (a list of 8-bit characters): every
  character of a path, of a file's text and of an operator's answer is taken to be a
  single-byte character, and case folding is ASCII case folding. The two non-ASCII glyphs
  of the success message and the rules of the banner appear in the printed text as their
  UTF-8 bytes.
\<close>

type_synonym path = string

definition nl :: char where
  "nl = CHR 0x0A"

definition sq :: char where
  "sq = CHR 0x27"

definition lower_char :: "char \<Rightarrow> char" where
  "lower_char c =
     (case map_of (zip ''ABCDEFGHIJKLMNOPQRSTUVWXYZ'' ''abcdefghijklmnopqrstuvwxyz'') c of
        Some d \<Rightarrow> d
      | None \<Rightarrow> c)"

text \<open>\<open>str.lower()\<close>\<close>

definition py_lower :: "string \<Rightarrow> string" where
  "py_lower s = map lower_char s"

text \<open>\<open>str.startswith(p)\<close> and \<open>str.endswith(x)\<close>\<close>

definition startswith :: "string \<Rightarrow> string \<Rightarrow> bool" where
  "startswith s p = (take (length p) s = p)"

definition endswith :: "string \<Rightarrow> string \<Rightarrow> bool" where
  "endswith s x = (length x \<le> length s \<and> drop (length s - length x) s = x)"

text \<open>\<open>str(n)\<close> for a non-negative integer: its decimal digits.\<close>

definition digit_char :: "nat \<Rightarrow> char" where
  "digit_char d = ''0123456789'' ! d"

function str_nat :: "nat \<Rightarrow> string" where
  "str_nat n = (if n < 10 then [digit_char n] else str_nat (n div 10) @ [digit_char (n mod 10)])"
  by pat_completeness auto
termination
  by (relation "measure id") auto

declare str_nat.simps [simp del]

subsection \<open>The two regular expressions\<close>

text \<open>
  Both patterns of the program end in \<open>$\<close> and are used without \<open>re.MULTILINE\<close>. Python's
  \<open>$\<close> matches at the end of the string and also just before a newline that is the last
  character of the string. \<open>matches_at_dollar lit s\<close> says that the literal \<open>lit\<close> followed
  by \<open>$\<close> matches somewhere in \<open>s\<close>.
\<close>

definition matches_at_dollar :: "string \<Rightarrow> string \<Rightarrow> bool" where
  "matches_at_dollar lit s = (endswith s lit \<or> endswith s (lit @ [nl]))"

text \<open>\<open>re.search(r'\.(fastq|fq)$', file, re.I)\<close> (line 97), as a truth value.\<close>

definition re_search_ext :: "path \<Rightarrow> bool" where
  "re_search_ext file =
     (matches_at_dollar ''.fastq'' (py_lower file) \<or> matches_at_dollar ''.fq'' (py_lower file))"

text \<open>\<open>re.sub(r'\.fastq$', '.fasta', file)\<close> (line 193): no \<open>re.I\<close> flag here.\<close>

definition re_sub_fastq :: "path \<Rightarrow> path" where
  "re_sub_fastq file =
     (if endswith file ''.fastq'' then take (length file - 6) file @ ''.fasta''
      else if endswith file (''.fastq'' @ [nl]) then take (length file - 7) file @ ''.fasta'' @ [nl]
      else file)"

subsection \<open>\<open>os.path.dirname\<close> (posixpath)\<close>

text \<open>
  \<^verbatim>\<open>i = p.rfind('/') + 1; head = p[:i]\<close>
  \<^verbatim>\<open>if head and head != '/'*len(head): head = head.rstrip('/')\<close>
\<close>

definition is_sep :: "char \<Rightarrow> bool" where
  "is_sep c = (c = CHR ''/'')"

definition os_path_dirname :: "path \<Rightarrow> path" where
  "os_path_dirname p =
     (let head = rev (dropWhile (\<lambda>c. \<not> is_sep c) (rev p)) in
      if head \<noteq> [] \<and> \<not> list_all is_sep head then rev (dropWhile is_sep (rev head)) else head)"

section \<open>The file system, the console and the process\<close>

text \<open>
  A path names at most one node. A regular file has its text and the two permission bits
  the program asks about; a directory has its permission bits. The store is an association
  list, so that a whole state can be written down and compared. Text is what Python's text
  mode delivers and accepts: decoding and newline translation are not modelled.
\<close>

record regular_file =
  content :: string
  readable :: bool
  writable :: bool

text \<open>
  What a failing system call or read raises. The first four are the \<open>OSError\<close>s of
  \<open>open\<close>; \<open>InputOutputError\<close> is the \<open>OSError\<close> of a failing device;
  \<open>UnicodeDecodeError\<close>, with the text \<open>str(e)\<close> gives for it, is what text mode raises
  on bytes that do not decode, and is not an \<open>IOError\<close>.
\<close>

datatype py_error =
  FileNotFoundError path | PermissionError path | IsADirectoryError path
  | NotADirectoryError path | InputOutputError | UnicodeDecodeError string

text \<open>
  \<open>Faulty f n e\<close> is a regular file of which only the first \<open>n\<close> lines can be read:
  reading any further line raises \<open>e\<close>. \<open>File f\<close> is one that can be read to its end.
\<close>

datatype node = File regular_file | Faulty regular_file nat py_error | Dir bool bool

text \<open>
  \<open>stdin\<close> holds the answers the operator will type (one per line, without the newline);
  \<open>stdout\<close> holds the text of every \<open>print\<close> call and every prompt so far, in order.
\<close>

record world =
  fs :: "(path \<times> node) list"
  stdin :: "string list"
  stdout :: "string list"

text \<open>\<open>sys.exit(status)\<close> or a normal return.\<close>

datatype 'a result = Exit nat | Return 'a

text \<open>\<open>str(e)\<close> (a path is shown between quotes, unescaped).\<close>

fun str_error :: "py_error \<Rightarrow> string" where
  "str_error (FileNotFoundError p) = ''[Errno 2] No such file or directory: '' @ [sq] @ p @ [sq]"
| "str_error (PermissionError p) = ''[Errno 13] Permission denied: '' @ [sq] @ p @ [sq]"
| "str_error (IsADirectoryError p) = ''[Errno 21] Is a directory: '' @ [sq] @ p @ [sq]"
| "str_error (NotADirectoryError p) = ''[Errno 20] Not a directory: '' @ [sq] @ p @ [sq]"
| "str_error InputOutputError = ''[Errno 5] Input/output error''"
| "str_error (UnicodeDecodeError msg) = msg"

text \<open>\<open>isinstance(e, IOError)\<close>\<close>

fun is_ioerror :: "py_error \<Rightarrow> bool" where
  "is_ioerror (UnicodeDecodeError msg) = False"
| "is_ioerror e = True"

definition py_print :: "world \<Rightarrow> string \<Rightarrow> world" where
  "py_print w msg = w\<lparr>stdout := stdout w @ [msg]\<rparr>"

text \<open>
  \<open>input(prompt)\<close>: writes the prompt and reads one line. At end of input Python raises
  \<open>EOFError\<close>, here the value \<open>None\<close>.
\<close>

definition py_input :: "world \<Rightarrow> string \<Rightarrow> string option \<times> world" where
  "py_input w prompt =
     (let w1 = py_print w prompt in
      case stdin w1 of [] \<Rightarrow> (None, w1) | a # rest \<Rightarrow> (Some a, w1\<lparr>stdin := rest\<rparr>))"

definition os_path_isfile :: "world \<Rightarrow> path \<Rightarrow> bool" where
  "os_path_isfile w p =
     (case map_of (fs w) p of
        Some (File f) \<Rightarrow> True | Some (Faulty f n e) \<Rightarrow> True | _ \<Rightarrow> False)"

text \<open>\<open>os.access(p, os.R_OK)\<close> and \<open>os.access(p, os.W_OK)\<close>\<close>

definition os_access_R :: "world \<Rightarrow> path \<Rightarrow> bool" where
  "os_access_R w p =
     (case map_of (fs w) p of
        None \<Rightarrow> False
      | Some (File f) \<Rightarrow> readable f
      | Some (Faulty f n e) \<Rightarrow> readable f
      | Some (Dir r x) \<Rightarrow> r)"

definition os_access_W :: "world \<Rightarrow> path \<Rightarrow> bool" where
  "os_access_W w p =
     (case map_of (fs w) p of
        None \<Rightarrow> False
      | Some (File f) \<Rightarrow> writable f
      | Some (Faulty f n e) \<Rightarrow> writable f
      | Some (Dir r x) \<Rightarrow> x)"

text \<open>The regular file at a path, of either kind.\<close>

definition file_at :: "world \<Rightarrow> path \<Rightarrow> regular_file option" where
  "file_at w p =
     (case map_of (fs w) p of
        Some (File f) \<Rightarrow> Some f | Some (Faulty f n e) \<Rightarrow> Some f | _ \<Rightarrow> None)"

definition file_content :: "world \<Rightarrow> path \<Rightarrow> string" where
  "file_content w p = (case file_at w p of Some f \<Rightarrow> content f | None \<Rightarrow> [])"

definition os_path_getsize :: "world \<Rightarrow> path \<Rightarrow> nat" where
  "os_path_getsize w p = length (file_content w p)"

subsection \<open>Open files\<close>

text \<open>
  A file opened for reading is a reference to its path, a position and the number of
  lines read so far: every read looks at what the store holds for that path at the time
  of the read.
\<close>

record reader =
  rpath :: path
  rpos :: nat
  rline :: nat

definition open_r :: "world \<Rightarrow> path \<Rightarrow> py_error + reader" where
  "open_r w p =
     (case map_of (fs w) p of
        None \<Rightarrow> Inl (FileNotFoundError p)
      | Some (Dir r x) \<Rightarrow> Inl (IsADirectoryError p)
      | Some (File f) \<Rightarrow>
          if readable f then Inr \<lparr>rpath = p, rpos = 0, rline = 0\<rparr>
          else Inl (PermissionError p)
      | Some (Faulty f n e) \<Rightarrow>
          if readable f then Inr \<lparr>rpath = p, rpos = 0, rline = 0\<rparr>
          else Inl (PermissionError p))"

text \<open>\<open>os.path.dirname(p) or '.'\<close>: the directory a path lies in.\<close>

definition parent_dir :: "path \<Rightarrow> path" where
  "parent_dir p = (if os_path_dirname p = [] then ''.'' else os_path_dirname p)"

text \<open>
  \<open>open(p, 'w')\<close>: an existing regular file is truncated at once, and with its old bytes
  gone it can be read to its (empty) end; a missing one is created in its directory.
\<close>

definition open_w :: "world \<Rightarrow> path \<Rightarrow> py_error + world" where
  "open_w w p =
     (case map_of (fs w) p of
        Some (Dir r x) \<Rightarrow> Inl (IsADirectoryError p)
      | Some (File f) \<Rightarrow>
          if writable f then Inr (w\<lparr>fs := AList.update p (File (f\<lparr>content := []\<rparr>)) (fs w)\<rparr>)
          else Inl (PermissionError p)
      | Some (Faulty f n e) \<Rightarrow>
          if writable f then Inr (w\<lparr>fs := AList.update p (File (f\<lparr>content := []\<rparr>)) (fs w)\<rparr>)
          else Inl (PermissionError p)
      | None \<Rightarrow>
          (case map_of (fs w) (parent_dir p) of
             None \<Rightarrow> Inl (FileNotFoundError p)
           | Some (File f) \<Rightarrow> Inl (NotADirectoryError p)
           | Some (Faulty f n e) \<Rightarrow> Inl (NotADirectoryError p)
           | Some (Dir r x) \<Rightarrow>
               if x then Inr (w\<lparr>fs := AList.update p
                          (File \<lparr>content = [], readable = True, writable = True\<rparr>) (fs w)\<rparr>)
               else Inl (PermissionError p)))"

text \<open>One line of a text: up to and including the first newline, or all of it.\<close>

definition take_line :: "string \<Rightarrow> string" where
  "take_line s = takeWhile (\<lambda>c. c \<noteq> nl) s @ take 1 (dropWhile (\<lambda>c. c \<noteq> nl) s)"

text \<open>
  \<open>fq.readline()\<close>, and the step of \<open>for line in fq\<close>: the next line, the empty string
  at the end of the file, or the exception of a faulty file whose readable lines are used
  up.
\<close>

definition readline :: "world \<Rightarrow> reader \<Rightarrow> py_error + string \<times> reader" where
  "readline w h =
     (let line = take_line (drop (rpos h) (file_content w (rpath h)));
          h' = h\<lparr>rpos := rpos h + length line, rline := rline h + 1\<rparr>
      in case map_of (fs w) (rpath h) of
           Some (Faulty f n e) \<Rightarrow> if line \<noteq> [] \<and> n \<le> rline h then Inl e else Inr (line, h')
         | _ \<Rightarrow> Inr (line, h'))"

text \<open>
  \<open>fa.write(text)\<close> on the file opened for writing at path \<open>p\<close>, which \<open>open_w\<close> has
  left as a \<open>File\<close>.
\<close>

definition fa_write :: "world \<Rightarrow> path \<Rightarrow> string \<Rightarrow> world" where
  "fa_write w p text =
     (case map_of (fs w) p of
        Some (File f) \<Rightarrow> w\<lparr>fs := AList.update p (File (f\<lparr>content := content f @ text\<rparr>)) (fs w)\<rparr>
      | _ \<Rightarrow> w)"

section \<open>The texts the program prints\<close>

text \<open>Each f-string of the source, as a function of the values it interpolates.\<close>

definition usage_message :: string where
  "usage_message = ''Usage: python3 fastq2fasta.py <file1.fastq> <file2.fastq> ...''"

definition not_found_message :: "path \<Rightarrow> string" where
  "not_found_message file = ''Error: '' @ file @ '' does not exist.''"

definition unreadable_message :: "path \<Rightarrow> string" where
  "unreadable_message file = ''Error: '' @ file @ '' exists but cannot be read.''"

definition extension_message :: "path \<Rightarrow> string" where
  "extension_message file =
     ''Error: '' @ file @ '' does not have a valid '' @ [sq] @ ''.fastq'' @ [sq] @ '' or ''
       @ [sq] @ ''.fq'' @ [sq] @ '' extension.''"

definition empty_message :: "path \<Rightarrow> string" where
  "empty_message file = ''Error: '' @ file @ '' is empty.''"

definition incomplete_message :: "path \<Rightarrow> string" where
  "incomplete_message file = ''Error: '' @ file @ '' has less than 4 lines (incomplete FASTQ).''"

definition header_message :: "path \<Rightarrow> string" where
  "header_message file = ''Error: '' @ file @ '' is not valid FASTQ (Header should start with @).''"

definition separator_message :: "path \<Rightarrow> string" where
  "separator_message file =
     ''Error: '' @ file @ '' is not valid FASTQ (Third line should start with +).''"

definition validating_message :: "path \<Rightarrow> py_error \<Rightarrow> string" where
  "validating_message file e = ''Error validating '' @ file @ '': '' @ str_error e"

definition overwrite_warning :: "path \<Rightarrow> string" where
  "overwrite_warning out_file =
     ''Warning: '' @ out_file @ '' already exists and will be overwritten.''"

definition overwrite_prompt :: string where
  "overwrite_prompt = ''Do you want to continue? (y/n): ''"

definition cancelled_message :: string where
  "cancelled_message = ''Operation cancelled by user.''"

definition directory_message :: "path \<Rightarrow> string" where
  "directory_message out_dir = ''Error: Cannot write to directory '' @ out_dir"

definition incomplete_records_warning :: "path \<Rightarrow> nat \<Rightarrow> string" where
  "incomplete_records_warning file line_num =
     ''Warning: '' @ file @ '' had incomplete records ('' @ str_nat line_num @ '' lines).''"

text \<open>The success message \<open>"  (check mark) {file} (arrow) {out_file}"\<close> of line 244.\<close>

definition success_message :: "path \<Rightarrow> path \<Rightarrow> string" where
  "success_message file out_file =
     ''  '' @ [CHR 0xE2, CHR 0x9C, CHR 0x93] @ '' '' @ file @ '' ''
       @ [CHR 0xE2, CHR 0x86, CHR 0x92] @ '' '' @ out_file"

definition io_error_message :: "path \<Rightarrow> py_error \<Rightarrow> string" where
  "io_error_message file e = ''Error reading/writing '' @ file @ '': '' @ str_error e"

definition unexpected_message :: "path \<Rightarrow> py_error \<Rightarrow> string" where
  "unexpected_message file e = ''Unexpected error processing '' @ file @ '': '' @ str_error e"

section \<open>The program\<close>

subsection \<open>\<open>validate_fastq_format\<close> (lines 115-164)\<close>

text \<open>
  The \<open>try\<close> block spans \<open>open\<close> and the four \<open>readline\<close> calls: an exception of any of
  them is caught by \<open>except Exception\<close>, reported, and answered \<open>False\<close>.
\<close>

definition validate_fastq_format :: "world \<Rightarrow> path \<Rightarrow> bool \<times> world" where
  "validate_fastq_format w file =
     (case open_r w file of
        Inl e \<Rightarrow> (False, py_print w (validating_message file e))
      | Inr fq0 \<Rightarrow>
          (case readline w fq0 of
             Inl e \<Rightarrow> (False, py_print w (validating_message file e))
           | Inr (line0, fq1) \<Rightarrow>
          (case readline w fq1 of
             Inl e \<Rightarrow> (False, py_print w (validating_message file e))
           | Inr (line1, fq2) \<Rightarrow>
          (case readline w fq2 of
             Inl e \<Rightarrow> (False, py_print w (validating_message file e))
           | Inr (line2, fq3) \<Rightarrow>
          (case readline w fq3 of
             Inl e \<Rightarrow> (False, py_print w (validating_message file e))
           | Inr (line3, fq4) \<Rightarrow>
               if line0 = [] \<or> line1 = [] \<or> line2 = [] \<or> line3 = [] then
                 (False, py_print w (incomplete_message file))
               else if \<not> startswith line0 ''@'' then
                 (False, py_print w (header_message file))
               else if \<not> startswith line2 ''+'' then
                 (False, py_print w (separator_message file))
               else (True, w))))))"

subsection \<open>\<open>argument_check\<close> (lines 56-112)\<close>

text \<open>The \<open>for file in files\<close> loop of lines 84-109.\<close>

fun argument_check_files :: "world \<Rightarrow> path list \<Rightarrow> bool result \<times> world" where
  "argument_check_files w [] = (Return True, w)"
| "argument_check_files w (file # rest) =
     (if \<not> os_path_isfile w file then
        (Exit 1, py_print w (not_found_message file))
      else if \<not> os_access_R w file then
        (Exit 1, py_print w (unreadable_message file))
      else if \<not> re_search_ext file then
        (Exit 1, py_print w (extension_message file))
      else if os_path_getsize w file = 0 then
        (Exit 1, py_print w (empty_message file))
      else (case validate_fastq_format w file of
              (ok, w') \<Rightarrow> if \<not> ok then (Exit 1, w') else argument_check_files w' rest))"

definition argument_check :: "world \<Rightarrow> path list \<Rightarrow> bool result \<times> world" where
  "argument_check w files =
     (if files = [] then
        (Exit 1, py_print w usage_message)
      else argument_check_files w files)"

subsection \<open>\<open>fastq_to_fasta\<close> (lines 171-253)\<close>

text \<open>
  The \<open>for line in fq\<close> loop of lines 219-235. Each round reads the next line from the
  store and writes to the store, so a run on a file that is both input and output need
  not end in every state: the loop is a partial function, and that it returns is proved
  for the states the program reaches (\<open>convert_lines_other\<close>, \<open>convert_lines_at_end\<close>).
  It ends with the number of lines read, or with the exception a read has raised; what
  was written before the exception stays in the output file, as the \<open>with\<close> statement
  closes it.
\<close>

partial_function (option) convert_lines ::
  "world \<Rightarrow> reader \<Rightarrow> path \<Rightarrow> nat \<Rightarrow> (world \<times> (py_error + nat)) option" where
  "convert_lines w fq fa line_num =
     (case readline w fq of
        Inl e \<Rightarrow> Some (w, Inl e)
      | Inr (line, fq') \<Rightarrow>
          if line = [] then Some (w, Inr line_num)
          else convert_lines
                 (if line_num mod 4 = 0 then fa_write w fa (''>'' @ drop 1 line)
                  else if line_num mod 4 = 1 then fa_write w fa line
                  else w)
                 fq' fa (line_num + 1))"

text \<open>
  The \<open>try\<close> block of lines 212-253, with its two handlers: \<open>except IOError\<close> and
  \<open>except Exception\<close>.
\<close>

definition convert_file :: "world \<Rightarrow> path \<Rightarrow> path \<Rightarrow> (unit result \<times> world) option" where
  "convert_file w file out_file =
     (case open_r w file of
        Inl e \<Rightarrow>
          Some (Exit 1, py_print w (io_error_message file e))
      | Inr fq \<Rightarrow>
          (case open_w w out_file of
             Inl e \<Rightarrow>
               Some (Exit 1, py_print w (io_error_message file e))
           | Inr w1 \<Rightarrow>
               (case convert_lines w1 fq out_file 0 of
                  None \<Rightarrow> None
                | Some (w2, Inl e) \<Rightarrow>
                    Some (Exit 1,
                      py_print w2
                        (if is_ioerror e then io_error_message file e
                         else unexpected_message file e))
                | Some (w2, Inr line_num) \<Rightarrow>
                    Some (Return (),
                      py_print
                        (if line_num mod 4 \<noteq> 0 then
                           py_print w2 (incomplete_records_warning file line_num)
                         else w2)
                        (success_message file out_file)))))"

text \<open>The overwrite check of lines 196-203. An \<open>EOFError\<close> of \<open>input\<close> is not caught: status 1.\<close>

definition overwrite_check :: "world \<Rightarrow> path \<Rightarrow> unit result \<times> world" where
  "overwrite_check w out_file =
     (if os_path_isfile w out_file then
        (case py_input (py_print w (overwrite_warning out_file)) overwrite_prompt of
           (None, w1) \<Rightarrow> (Exit 1, w1)
         | (Some answer, w1) \<Rightarrow>
             if py_lower answer \<notin> set [''y'', ''yes''] then
               (Exit 0, py_print w1 cancelled_message)
             else (Return (), w1))
      else (Return (), w))"

text \<open>The body of the \<open>for file in in_files\<close> loop (lines 190-253) for one file.\<close>

definition fastq_to_fasta_file :: "world \<Rightarrow> path \<Rightarrow> (unit result \<times> world) option" where
  "fastq_to_fasta_file w file =
     (let out_file = re_sub_fastq file in
      case overwrite_check w out_file of
        (Exit s, w1) \<Rightarrow> Some (Exit s, w1)
      | (Return u, w1) \<Rightarrow>
          (let out_dir = parent_dir out_file
           in if \<not> os_access_W w1 out_dir then
                Some (Exit 1, py_print w1 (directory_message out_dir))
              else convert_file w1 file out_file))"

fun fastq_to_fasta :: "world \<Rightarrow> path list \<Rightarrow> (unit result \<times> world) option" where
  "fastq_to_fasta w [] = Some (Return (), w)"
| "fastq_to_fasta w (file # rest) =
     (case fastq_to_fasta_file w file of
        None \<Rightarrow> None
      | Some (Exit s, w') \<Rightarrow> Some (Exit s, w')
      | Some (Return u, w') \<Rightarrow> fastq_to_fasta w' rest)"

subsection \<open>The main program (lines 260-277)\<close>

definition rule_line :: string where
  "rule_line = concat (replicate 41 [CHR 0xE2, CHR 0x94, CHR 0x80])"

definition dots_line :: string where
  "dots_line = concat (replicate 41 [CHR 0xC2, CHR 0xB7])"

definition banner :: "world \<Rightarrow> world" where
  "banner w =
     py_print (py_print (py_print (py_print (py_print w []) rule_line)
       ''        fastq2fasta converter'') rule_line) []"

definition trailer :: "world \<Rightarrow> world" where
  "trailer w =
     py_print (py_print (py_print (py_print w []) dots_line)
       '' All conversions completed successfully!'') rule_line"

text \<open>The exit status of the process and the state it leaves.\<close>

definition main :: "world \<Rightarrow> path list \<Rightarrow> (nat \<times> world) option" where
  "main w files =
     (case argument_check (banner w) files of
        (Exit s, w1) \<Rightarrow> Some (s, w1)
      | (Return ok, w1) \<Rightarrow>
          (case fastq_to_fasta w1 files of
             None \<Rightarrow> None
           | Some (Exit s, w2) \<Rightarrow> Some (s, w2)
           | Some (Return u, w2) \<Rightarrow> Some (0, trailer w2)))"

section \<open>Notions the statements use\<close>

text \<open>
  The lines of a text in order, as \<open>for line in fq\<close> and repeated \<open>readline\<close> calls deliver
  them: every line but possibly the last ends in a newline, and no line is empty.
\<close>

function lines_of :: "string \<Rightarrow> string list" where
  "lines_of s = (if s = [] then [] else take_line s # lines_of (drop (length (take_line s)) s))"
  by pat_completeness auto
termination
proof (relation "measure length")
  show "wf (measure length)" by simp
next
  fix s :: string
  assume "s \<noteq> []"
  then have "take_line s \<noteq> []"
    by (cases s) (simp_all add: take_line_def)
  then show "(drop (length (take_line s)) s, s) \<in> measure length"
    using \<open>s \<noteq> []\<close> by simp
qed

declare lines_of.simps [simp del]

text \<open>What the loop of lines 219-235 writes for the lines \<open>ls\<close>, the first at position \<open>n\<close>.\<close>

fun fasta_text :: "nat \<Rightarrow> string list \<Rightarrow> string" where
  "fasta_text n [] = []"
| "fasta_text n (l # ls) =
     (if n mod 4 = 0 then ''>'' @ drop 1 l else if n mod 4 = 1 then l else [])
       @ fasta_text (Suc n) ls"

text \<open>The fault of the file at a path, if it has one.\<close>

definition fault_at :: "world \<Rightarrow> path \<Rightarrow> (nat \<times> py_error) option" where
  "fault_at w p = (case map_of (fs w) p of Some (Faulty f n e) \<Rightarrow> Some (n, e) | _ \<Rightarrow> None)"

text \<open>
  The exception that reading the first four lines of a file raises, if any: the file is
  faulty and one of the lines it has among the first four cannot be read.
\<close>

definition sniff_error :: "world \<Rightarrow> path \<Rightarrow> py_error option" where
  "sniff_error w file =
     (case fault_at w file of
        Some (n, e) \<Rightarrow>
          if n < 4 \<and> n < length (lines_of (file_content w file)) then Some e else None
      | None \<Rightarrow> None)"

text \<open>
  The checks of the specification (4.1 and 4.2) in their order, with the diagnostic of the
  first one a path fails: not found, not readable, wrong extension, empty, an error while
  reading, fewer than four lines, no \<open>@\<close> marker, no \<open>+\<close> marker. \<open>None\<close> when the
  path passes them all.
\<close>

definition first_violation :: "world \<Rightarrow> path \<Rightarrow> string option" where
  "first_violation w file =
     (if \<not> os_path_isfile w file then Some (not_found_message file)
      else if \<not> os_access_R w file then Some (unreadable_message file)
      else if \<not> re_search_ext file then Some (extension_message file)
      else if os_path_getsize w file = 0 then Some (empty_message file)
      else (case sniff_error w file of
              Some e \<Rightarrow> Some (validating_message file e)
            | None \<Rightarrow>
                if length (lines_of (file_content w file)) < 4 then
                  Some (incomplete_message file)
                else if \<not> startswith (lines_of (file_content w file) ! 0) ''@'' then
                  Some (header_message file)
                else if \<not> startswith (lines_of (file_content w file) ! 2) ''+'' then
                  Some (separator_message file)
                else None))"

text \<open>The end of the \<open>try\<close> block: the warning of lines 239-241 and the message of line 244.\<close>

definition finish :: "world \<Rightarrow> path \<Rightarrow> path \<Rightarrow> nat \<Rightarrow> world" where
  "finish w file out_file line_num =
     w\<lparr>stdout := stdout w
          @ (if line_num mod 4 \<noteq> 0 then [incomplete_records_warning file line_num] else [])
          @ [success_message file out_file]\<rparr>"

text \<open>A complete line: it ends in a newline and has no other newline.\<close>

definition full_line :: "string \<Rightarrow> bool" where
  "full_line l = (l \<noteq> [] \<and> last l = nl \<and> nl \<notin> set (butlast l))"

text \<open>The lines of the FASTA text of whole records: two for every four.\<close>

fun fasta_lines :: "string list \<Rightarrow> string list" where
  "fasta_lines (h # q # s # ql # rest) = (''>'' @ drop 1 h) # q # fasta_lines rest"
| "fasta_lines ls = []"

section \<open>Concrete states\<close>

text \<open>The states of the runs that are evaluated below.\<close>

definition sniff_world :: world where
  "sniff_world =
     \<lparr>fs = [(''odd.fastq'',
              File \<lparr>content = ''@r1\<newline>NNXX??\<newline>+anything\<newline>!\<newline>'',
                    readable = True, writable = False\<rparr>)],
      stdin = [], stdout = []\<rparr>"

definition undecodable_world :: world where
  "undecodable_world =
     \<lparr>fs = [(''bytes.fastq'',
              Faulty \<lparr>content = ''@r1\<newline>ACGT\<newline>+\<newline>FFFF\<newline>'',
                      readable = True, writable = True\<rparr>
                0 (UnicodeDecodeError ''invalid start byte''))],
      stdin = [], stdout = []\<rparr>"

definition batch_world :: world where
  "batch_world =
     \<lparr>fs = [(''ok.fastq'',
              File \<lparr>content = ''@r1\<newline>ACGT\<newline>+\<newline>FFFF\<newline>'', readable = True, writable = True\<rparr>),
             (''bad.fastq'',
              File \<lparr>content = ''@r2\<newline>ACGT\<newline>-\<newline>FFFF\<newline>'', readable = True, writable = True\<rparr>),
             (''later.fastq'',
              File \<lparr>content = ''@r3\<newline>ACGT\<newline>+\<newline>FFFF\<newline>'', readable = True, writable = True\<rparr>),
             (''.'', Dir True True)],
      stdin = [], stdout = []\<rparr>"

definition in_place_world :: world where
  "in_place_world =
     \<lparr>fs = [(''sample.fq'',
              File \<lparr>content = ''@r1\<newline>ACGT\<newline>+\<newline>FFFF\<newline>'', readable = True, writable = True\<rparr>),
             (''.'', Dir True True)],
      stdin = [''y''], stdout = []\<rparr>"

text \<open>The same file, which the process may read and not write.\<close>

definition read_only_world :: world where
  "read_only_world =
     \<lparr>fs = [(''sample.fq'',
              File \<lparr>content = ''@r1\<newline>ACGT\<newline>+\<newline>FFFF\<newline>'', readable = True, writable = False\<rparr>),
             (''.'', Dir True True)],
      stdin = [''y''], stdout = []\<rparr>"

definition locked_dir_world :: world where
  "locked_dir_world =
     \<lparr>fs = [(''a.fastq'',
              File \<lparr>content = ''@r1\<newline>ACGT\<newline>+\<newline>FFFF\<newline>'', readable = True, writable = True\<rparr>),
             (''a.fasta'', File \<lparr>content = ''>old\<newline>TTTT\<newline>'', readable = True, writable = True\<rparr>),
             (''.'', Dir True False)],
      stdin = [''n''], stdout = []\<rparr>"

definition locked_empty_dir_world :: world where
  "locked_empty_dir_world =
     \<lparr>fs = [(''a.fastq'',
              File \<lparr>content = ''@r1\<newline>ACGT\<newline>+\<newline>FFFF\<newline>'', readable = True, writable = True\<rparr>),
             (''.'', Dir True False)],
      stdin = [], stdout = []\<rparr>"

definition overwrite_world :: world where
  "overwrite_world =
     \<lparr>fs = [(''a.fastq'',
              File \<lparr>content = ''@r1\<newline>ACGT\<newline>+\<newline>FFFF\<newline>'', readable = True, writable = True\<rparr>),
             (''a.fasta'', File \<lparr>content = ''>old\<newline>TTTT\<newline>'', readable = True, writable = True\<rparr>),
             (''.'', Dir True True)],
      stdin = [[], ''YeS''], stdout = []\<rparr>"

definition one_record_world :: world where
  "one_record_world =
     \<lparr>fs = [(''reads.fq'',
              File \<lparr>content = ''@r1\<newline>ACGT\<newline>+\<newline>FFFF\<newline>'', readable = True, writable = True\<rparr>),
             (''.'', Dir True True)],
      stdin = [''y''], stdout = []\<rparr>"

definition two_record_world :: world where
  "two_record_world =
     \<lparr>fs = [(''reads.FQ'',
              File \<lparr>content = ''@r1\<newline>ACGT\<newline>+\<newline>FFFF\<newline>@r2\<newline>TTGA\<newline>+\<newline>FFFF\<newline>'',
                    readable = True, writable = True\<rparr>),
             (''.'', Dir True True)],
      stdin = [''Y''], stdout = []\<rparr>"

definition upper_case_world :: world where
  "upper_case_world =
     \<lparr>fs = [(''SAMPLE.FASTQ'',
              File \<lparr>content = ''@r1\<newline>ACGT\<newline>+\<newline>FFFF\<newline>'', readable = True, writable = True\<rparr>),
             (''.'', Dir True True)],
      stdin = [''yes''], stdout = []\<rparr>"

definition five_line_world :: world where
  "five_line_world =
     \<lparr>fs = [(''sample.fq'',
              File \<lparr>content = ''@r1\<newline>ACGT\<newline>+\<newline>FFFF\<newline>@r2\<newline>'', readable = True, writable = True\<rparr>),
             (''.'', Dir True True)],
      stdin = [''y''], stdout = []\<rparr>"

section \<open>Lines of a text\<close>

lemma take_line_nonempty: "s \<noteq> [] \<Longrightarrow> take_line s \<noteq> []"
  by (cases s) (simp_all add: take_line_def)

lemma take_line_Nil [simp]: "take_line [] = []"
  by (simp add: take_line_def)

lemma take_line_eq_Nil [simp]: "(take_line s = []) = (s = [])"
proof
  assume "take_line s = []"
  then show "s = []" using take_line_nonempty by blast
next
  assume "s = []"
  then show "take_line s = []" by simp
qed

lemma file_at_File [simp]: "map_of (fs w) p = Some (File f) \<Longrightarrow> file_at w p = Some f"
  by (simp add: file_at_def)

lemma fault_at_File [simp]: "map_of (fs w) p = Some (File f) \<Longrightarrow> fault_at w p = None"
  by (simp add: fault_at_def)

lemma file_content_file_at: "file_at w p = Some f \<Longrightarrow> file_content w p = content f"
  by (simp add: file_content_def)

lemma readline_sound:
  assumes "fault_at w (rpath h) = None"
  shows "readline w h =
     Inr (take_line (drop (rpos h) (file_content w (rpath h))),
          h\<lparr>rpos := rpos h + length (take_line (drop (rpos h) (file_content w (rpath h)))),
            rline := rline h + 1\<rparr>)"
  using assms
  by (simp add: readline_def fault_at_def Let_def split: option.splits node.splits)

lemma readline_faulty:
  assumes "fault_at w (rpath h) = Some (n, e)"
  shows "readline w h =
     (if drop (rpos h) (file_content w (rpath h)) \<noteq> [] \<and> n \<le> rline h then Inl e
      else Inr (take_line (drop (rpos h) (file_content w (rpath h))),
          h\<lparr>rpos := rpos h + length (take_line (drop (rpos h) (file_content w (rpath h)))),
            rline := rline h + 1\<rparr>))"
proof -
  obtain f where "map_of (fs w) (rpath h) = Some (Faulty f n e)"
    using assms by (auto simp: fault_at_def split: option.splits node.splits)
  then show ?thesis
    by (simp add: readline_def Let_def)
qed

lemma readline_at_end:
  assumes "drop (rpos h) (file_content w (rpath h)) = []"
  shows "readline w h = Inr ([], h\<lparr>rpos := rpos h, rline := rline h + 1\<rparr>)"
proof (cases "fault_at w (rpath h)")
  case None
  then show ?thesis using assms by (simp add: readline_sound)
next
  case (Some a)
  then obtain n e where "fault_at w (rpath h) = Some (n, e)" by (cases a) simp
  then show ?thesis using assms by (simp add: readline_faulty)
qed

lemma fa_write_File:
  "map_of (fs w) p = Some (File g) \<Longrightarrow>
   fa_write w p t = w\<lparr>fs := AList.update p (File (g\<lparr>content := content g @ t\<rparr>)) (fs w)\<rparr>"
  by (simp add: fa_write_def)

section \<open>The conversion loop returns\<close>

text \<open>
  When the output is another file than the input, the loop reads every remaining line of
  the input, ends, and has appended to the output exactly the text \<open>fasta_text\<close> gives.
\<close>

lemma convert_lines_other:
  assumes "fa \<noteq> rpath fq" and "map_of (fs w) fa = Some (File g)"
    and "ls = lines_of (drop (rpos fq) (file_content w (rpath fq)))"
    and "fault_at w (rpath fq) = None"
  shows "convert_lines w fq fa n =
     Some (w\<lparr>fs := AList.update fa (File (g\<lparr>content := content g @ fasta_text n ls\<rparr>)) (fs w)\<rparr>,
           Inr (n + length ls))"
  using assms
proof (induction ls arbitrary: w fq n g)
  case Nil
  then have e: "drop (rpos fq) (file_content w (rpath fq)) = []"
    by (subst (asm) lines_of.simps) (simp split: if_splits)
  show ?case
    using Nil(2) by (subst convert_lines.simps) (simp add: readline_at_end[OF e] update_triv)
next
  case (Cons l ls)
  let ?s = "drop (rpos fq) (file_content w (rpath fq))"
  have ne: "?s \<noteq> []"
    using Cons.prems(3) by (subst (asm) lines_of.simps) (simp split: if_splits)
  have both: "l = take_line ?s \<and> ls = lines_of (drop (length (take_line ?s)) ?s)"
    using Cons.prems(3) ne by (subst (asm) lines_of.simps) simp
  have l: "l = take_line ?s" and ls: "ls = lines_of (drop (length l) ?s)"
    using both by simp_all
  have rl: "readline w fq = Inr (l, fq\<lparr>rpos := rpos fq + length l, rline := rline fq + 1\<rparr>)"
    by (simp add: readline_sound[OF Cons.prems(4)] l)
  have lne: "l \<noteq> []" using take_line_nonempty[OF ne] by (simp add: l)
  define t where "t = (if n mod 4 = 0 then ''>'' @ drop 1 l else if n mod 4 = 1 then l else [])"
  define w' where
    "w' = w\<lparr>fs := AList.update fa (File (g\<lparr>content := content g @ t\<rparr>)) (fs w)\<rparr>"
  have w'eq: "(if n mod 4 = 0 then fa_write w fa (''>'' @ drop 1 l)
              else if n mod 4 = 1 then fa_write w fa l else w) = w'"
    using Cons.prems(2) by (simp add: w'_def t_def fa_write_File update_triv)
  have c': "file_content w' (rpath fq) = file_content w (rpath fq)"
    using Cons.prems(1) by (simp add: w'_def file_content_def file_at_def update_conv')
  have f': "fault_at w' (rpath fq) = None"
    using Cons.prems(1,4) by (simp add: w'_def fault_at_def update_conv')
  have m': "map_of (fs w') fa = Some (File (g\<lparr>content := content g @ t\<rparr>))"
    by (simp add: w'_def update_conv')
  let ?fq' = "fq\<lparr>rpos := rpos fq + length l, rline := rline fq + 1\<rparr>"
  have ih: "convert_lines w' ?fq' fa (Suc n) =
     Some (w'\<lparr>fs := AList.update fa
                   (File (g\<lparr>content := content g @ t @ fasta_text (Suc n) ls\<rparr>)) (fs w')\<rparr>,
           Inr (Suc n + length ls))"
    using Cons.IH[where fq = ?fq' and w = w'
        and g = "g\<lparr>content := content g @ t\<rparr>" and n = "Suc n"]
      Cons.prems(1) m' ls c' f' by (simp add: add.commute)
  have step: "convert_lines w fq fa n = convert_lines w' ?fq' fa (Suc n)"
    by (subst convert_lines.simps)
      (simp only: rl sum.case prod.case w'eq lne if_False Suc_eq_plus1)
  show ?case
    unfolding step ih by (simp add: w'_def t_def)
qed

text \<open>When the input has no text left, the loop ends at once and writes nothing.\<close>

lemma convert_lines_at_end:
  assumes "drop (rpos fq) (file_content w (rpath fq)) = []"
  shows "convert_lines w fq fa n = Some (w, Inr n)"
  by (subst convert_lines.simps) (simp add: readline_at_end[OF assms])

section \<open>What the format check decides\<close>

lemma open_r_file_at:
  assumes "file_at w p = Some f" and "readable f"
  shows "open_r w p = Inr \<lparr>rpath = p, rpos = 0, rline = 0\<rparr>"
  using assms by (auto simp: open_r_def file_at_def split: option.splits node.splits)

text \<open>The four reads, then the three tests, in terms of the text that is left.\<close>

lemma validate_fastq_format_reads:
  assumes "file_at w file = Some f" and "readable f"
    and "s1 = drop (length (take_line (content f))) (content f)"
    and "s2 = drop (length (take_line s1)) s1"
    and "s3 = drop (length (take_line s2)) s2"
    and "fails = (\<lambda>(i::nat) (s::string). case fault_at w file of
                     Some (n, e) \<Rightarrow> s \<noteq> [] \<and> n \<le> i | None \<Rightarrow> False)"
    and "err = (False, py_print w
                  (validating_message file (case fault_at w file of Some (n, e) \<Rightarrow> e)))"
  shows "validate_fastq_format w file =
     (if fails 0 (content f) then err else if fails 1 s1 then err
      else if fails 2 s2 then err else if fails 3 s3 then err
      else if content f = [] \<or> s1 = [] \<or> s2 = [] \<or> s3 = [] then
        (False, py_print w (incomplete_message file))
      else if \<not> startswith (take_line (content f)) ''@'' then
        (False, py_print w (header_message file))
      else if \<not> startswith (take_line s2) ''+'' then
        (False, py_print w (separator_message file))
      else (True, w))"
proof -
  define s0 where "s0 = content f"
  have c: "file_content w file = s0"
    using assms(1) by (simp add: file_content_file_at s0_def)
  have o: "open_r w file = Inr \<lparr>rpath = file, rpos = 0, rline = 0\<rparr>"
    using assms(1,2) by (rule open_r_file_at)
  have d1: "drop (length (take_line s0)) s0 = s1" by (simp add: assms(3) s0_def)
  have d2: "drop (length (take_line s0) + length (take_line s1)) s0 = s2"
    by (simp add: assms(3,4) s0_def add.commute)
  have d3: "drop (length (take_line s0) + length (take_line s1) + length (take_line s2)) s0 = s3"
    by (simp add: assms(3,4,5) s0_def add.commute add.left_commute)
  have e1: "s0 = [] \<Longrightarrow> s1 = []" using d1 by auto
  have e2: "s1 = [] \<Longrightarrow> s2 = []" by (simp add: assms(4))
  have e3: "s2 = [] \<Longrightarrow> s3 = []" by (simp add: assms(5))
  show ?thesis
  proof (cases "fault_at w file")
    case None
    have r: "readline w \<lparr>rpath = file, rpos = k, rline = i\<rparr> =
        Inr (take_line (drop k s0),
             \<lparr>rpath = file, rpos = k + length (take_line (drop k s0)), rline = i + 1\<rparr>)" for k i
      using None by (simp add: readline_sound c)
    show ?thesis
      unfolding s0_def[symmetric]
      by (simp add: validate_fastq_format_def o r d1 d2 d3 assms(6) None)
  next
    case (Some a)
    then obtain n e where ne: "fault_at w file = Some (n, e)" by (cases a) simp
    have r: "readline w \<lparr>rpath = file, rpos = k, rline = i\<rparr> =
        (if drop k s0 \<noteq> [] \<and> n \<le> i then Inl e
         else Inr (take_line (drop k s0),
             \<lparr>rpath = file, rpos = k + length (take_line (drop k s0)), rline = i + 1\<rparr>))" for k i
      using ne by (simp add: readline_faulty c)
    show ?thesis
      unfolding s0_def[symmetric]
      using e1 e2 e3 by (auto simp add: validate_fastq_format_def o r d1 d2 d3 assms(6,7) ne)
  qed
qed

lemma validate_fastq_format_lines:
  assumes "file_at w file = Some f" and "readable f"
  shows "validate_fastq_format w file =
     (case sniff_error w file of
        Some e \<Rightarrow> (False, py_print w (validating_message file e))
      | None \<Rightarrow>
          if length (lines_of (content f)) < 4 then (False, py_print w (incomplete_message file))
          else if \<not> startswith (lines_of (content f) ! 0) ''@'' then
            (False, py_print w (header_message file))
          else if \<not> startswith (lines_of (content f) ! 2) ''+'' then
            (False, py_print w (separator_message file))
          else (True, w))"
proof -
  define s0 where "s0 = content f"
  define s1 where "s1 = drop (length (take_line s0)) s0"
  define s2 where "s2 = drop (length (take_line s1)) s1"
  define s3 where "s3 = drop (length (take_line s2)) s2"
  define s4 where "s4 = drop (length (take_line s3)) s3"
  define fails where "fails = (\<lambda>(i::nat) (s::string). case fault_at w file of
                     Some (n, e) \<Rightarrow> s \<noteq> [] \<and> n \<le> i | None \<Rightarrow> False)"
  define err where "err = (False, py_print w
                  (validating_message file (case fault_at w file of Some (n, e) \<Rightarrow> e)))"
  have c: "file_content w file = s0"
    using assms(1) by (simp add: file_content_file_at s0_def)
  have v: "validate_fastq_format w file =
     (if fails 0 s0 then err else if fails 1 s1 then err
      else if fails 2 s2 then err else if fails 3 s3 then err
      else if s0 = [] \<or> s1 = [] \<or> s2 = [] \<or> s3 = [] then
        (False, py_print w (incomplete_message file))
      else if \<not> startswith (take_line s0) ''@'' then (False, py_print w (header_message file))
      else if \<not> startswith (take_line s2) ''+'' then
        (False, py_print w (separator_message file))
      else (True, w))"
    unfolding s0_def
    by (rule validate_fastq_format_reads[OF assms])
      (simp_all add: s1_def s2_def s3_def s0_def fails_def err_def)
  have l0: "lines_of s0 = (if s0 = [] then [] else take_line s0 # lines_of s1)"
    unfolding s1_def by (rule lines_of.simps)
  have l1: "lines_of s1 = (if s1 = [] then [] else take_line s1 # lines_of s2)"
    unfolding s2_def by (rule lines_of.simps)
  have l2: "lines_of s2 = (if s2 = [] then [] else take_line s2 # lines_of s3)"
    unfolding s3_def by (rule lines_of.simps)
  have l3: "lines_of s3 = (if s3 = [] then [] else take_line s3 # lines_of s4)"
    unfolding s4_def by (rule lines_of.simps)
  have sn: "sniff_error w file =
      (case fault_at w file of
         Some (n, e) \<Rightarrow> if n < 4 \<and> n < length (lines_of s0) then Some e else None
       | None \<Rightarrow> None)"
    unfolding sniff_error_def c ..
  consider (a) "s0 = []" | (b) "s0 \<noteq> []" "s1 = []" | (c) "s0 \<noteq> []" "s1 \<noteq> []" "s2 = []"
    | (d) "s0 \<noteq> []" "s1 \<noteq> []" "s2 \<noteq> []" "s3 = []"
    | (e) "s0 \<noteq> []" "s1 \<noteq> []" "s2 \<noteq> []" "s3 \<noteq> []"
    by blast
  then show ?thesis
  proof cases
    case a
    have e: "s1 = []" "s2 = []" "s3 = []" using a by (simp_all add: s1_def s2_def s3_def)
    have L: "lines_of s0 = []" using a l0 by simp
    show ?thesis unfolding v s0_def[symmetric] sn L using a e
      by (simp add: fails_def err_def split: option.splits)
  next
    case b
    have e: "s2 = []" "s3 = []" using b by (simp_all add: s2_def s3_def)
    have L: "lines_of s0 = [take_line s0]" using b l0 l1 by simp
    show ?thesis unfolding v s0_def[symmetric] sn L using b e
      by (auto simp add: fails_def err_def split: option.splits)
  next
    case c
    have e: "s3 = []" using c by (simp_all add: s3_def)
    have L: "lines_of s0 = [take_line s0, take_line s1]" using c l0 l1 l2 by simp
    show ?thesis unfolding v s0_def[symmetric] sn L using c e
      by (auto simp add: fails_def err_def split: option.splits)
  next
    case d
    have L: "lines_of s0 = [take_line s0, take_line s1, take_line s2]"
      using d l0 l1 l2 l3 by simp
    show ?thesis unfolding v s0_def[symmetric] sn L using d
      by (auto simp add: fails_def err_def split: option.splits)
  next
    case e
    have L: "lines_of s0 = take_line s0 # take_line s1 # take_line s2 # take_line s3 # lines_of s4"
      using e l0 l1 l2 l3 by simp
    show ?thesis unfolding v s0_def[symmetric] sn L using e
      by (auto simp add: fails_def err_def split: option.splits)
  qed
qed

section \<open>The format check (C4)\<close>

lemma lines_of_odd:
  "lines_of ''@r1\<newline>NNXX??\<newline>+anything\<newline>!\<newline>'' =
     [''@r1\<newline>'', ''NNXX??\<newline>'', ''+anything\<newline>'', ''!\<newline>'']"
  by (simp add: lines_of.simps take_line_def nl_def)

lemma lines_of_record:
  "lines_of ''@r1\<newline>ACGT\<newline>+\<newline>FFFF\<newline>'' =
     [''@r1\<newline>'', ''ACGT\<newline>'', ''+\<newline>'', ''FFFF\<newline>'']"
  by (simp add: lines_of.simps take_line_def nl_def)

text \<open>
  C4, as stated, fails on a readable file of four lines with both markers whose bytes do
  not decode: the first \<open>readline\<close> raises, \<open>except Exception\<close> catches it, and the answer
  is invalid although none of the three conditions holds.
\<close>

theorem validate_fastq_format_read_error:
  "os_access_R undecodable_world ''bytes.fastq''
   \<and> lines_of (file_content undecodable_world ''bytes.fastq'') =
        [''@r1\<newline>'', ''ACGT\<newline>'', ''+\<newline>'', ''FFFF\<newline>'']
   \<and> validate_fastq_format undecodable_world ''bytes.fastq'' =
        (False,
         undecodable_world\<lparr>stdout :=
           [validating_message ''bytes.fastq'' (UnicodeDecodeError ''invalid start byte'')]\<rparr>)"
proof -
  let ?f = "\<lparr>content = ''@r1\<newline>ACGT\<newline>+\<newline>FFFF\<newline>'', readable = True, writable = True\<rparr>"
  have a: "file_at undecodable_world ''bytes.fastq'' = Some ?f"
    by (simp add: undecodable_world_def file_at_def)
  have c: "file_content undecodable_world ''bytes.fastq'' = ''@r1\<newline>ACGT\<newline>+\<newline>FFFF\<newline>''"
    by (simp add: file_content_def a)
  have fa: "fault_at undecodable_world ''bytes.fastq'' =
      Some (0, UnicodeDecodeError ''invalid start byte'')"
    by (simp add: undecodable_world_def fault_at_def)
  have s: "sniff_error undecodable_world ''bytes.fastq'' =
      Some (UnicodeDecodeError ''invalid start byte'')"
    by (simp add: sniff_error_def fa c lines_of_record)
  have r: "os_access_R undecodable_world ''bytes.fastq''"
    by (simp add: undecodable_world_def os_access_R_def)
  have "validate_fastq_format undecodable_world ''bytes.fastq'' =
        (False,
         py_print undecodable_world
           (validating_message ''bytes.fastq'' (UnicodeDecodeError ''invalid start byte'')))"
    using validate_fastq_format_lines[OF a] by (simp add: s)
  then have v: "validate_fastq_format undecodable_world ''bytes.fastq'' =
        (False,
         undecodable_world\<lparr>stdout :=
           [validating_message ''bytes.fastq'' (UnicodeDecodeError ''invalid start byte'')]\<rparr>)"
    by (simp add: py_print_def undecodable_world_def)
  show ?thesis using r v by (simp add: c lines_of_record)
qed

text \<open>
  C4, amended. For a readable regular file, \<open>validate_fastq_format\<close> answers valid exactly
  when the first four lines are read without an error, the file has at least four lines,
  its first line starts with \<open>@\<close> and its third line starts with \<open>+\<close>; it answers
  invalid exactly when reading one of the first four lines raises an error, or fewer than
  four lines are available, or the first line does not start with \<open>@\<close>, or the third
  does not start with \<open>+\<close>. Apart from such an error the answer is a function of the
  number of lines and of the first character of lines one and three only: the second and
  fourth line, the lengths, the alphabet and the quality encoding play no part in it.
\<close>

theorem validate_fastq_format_verdict:
  assumes "file_at w file = Some f" and "readable f"
  shows "fst (validate_fastq_format w file) =
           (sniff_error w file = None
             \<and> 4 \<le> length (lines_of (content f)) \<and> startswith (lines_of (content f) ! 0) ''@''
             \<and> startswith (lines_of (content f) ! 2) ''+'')"
  unfolding validate_fastq_format_lines[OF assms] by (simp split: option.splits)

theorem validate_fastq_format_verdict_witness:
  "fst (validate_fastq_format sniff_world ''odd.fastq'')
   \<and> \<not> fst (validate_fastq_format undecodable_world ''bytes.fastq'')"
proof -
  have a: "file_at sniff_world ''odd.fastq'' =
      Some \<lparr>content = ''@r1\<newline>NNXX??\<newline>+anything\<newline>!\<newline>'',
        readable = True, writable = False\<rparr>"
    by (simp add: sniff_world_def file_at_def)
  have fs: "fault_at sniff_world ''odd.fastq'' = None"
    by (simp add: sniff_world_def fault_at_def)
  have s: "sniff_error sniff_world ''odd.fastq'' = None"
    by (simp add: sniff_error_def fs)
  have b: "file_at undecodable_world ''bytes.fastq'' =
      Some \<lparr>content = ''@r1\<newline>ACGT\<newline>+\<newline>FFFF\<newline>'', readable = True, writable = True\<rparr>"
    by (simp add: undecodable_world_def file_at_def)
  have c: "file_content undecodable_world ''bytes.fastq'' = ''@r1\<newline>ACGT\<newline>+\<newline>FFFF\<newline>''"
    by (simp add: file_content_def b)
  have fa: "fault_at undecodable_world ''bytes.fastq'' =
      Some (0, UnicodeDecodeError ''invalid start byte'')"
    by (simp add: undecodable_world_def fault_at_def)
  have t: "sniff_error undecodable_world ''bytes.fastq'' =
      Some (UnicodeDecodeError ''invalid start byte'')"
    by (simp add: sniff_error_def fa c lines_of_record)
  show ?thesis
    using validate_fastq_format_verdict[OF a] validate_fastq_format_verdict[OF b]
    by (simp add: s t lines_of_odd startswith_def)
qed

section \<open>The name of the output file (C5)\<close>

lemma endswith_append: "endswith (stem @ x) x"
  by (simp add: endswith_def)

lemma endswith_split: "endswith s x \<Longrightarrow> \<exists>pre. s = pre @ x"
  unfolding endswith_def by (metis append_take_drop_id)

lemma not_endswith_append:
  fixes x y :: string
  assumes "length x \<le> length y" and "rev x \<noteq> take (length x) (rev y)"
  shows "\<not> endswith (stem @ x) y"
proof
  assume "endswith (stem @ x) y"
  then obtain pre where "stem @ x = pre @ y"
    using endswith_split by blast
  then have "rev x @ rev stem = rev y @ rev pre" by (metis rev_append)
  then have "take (length x) (rev x @ rev stem) = take (length x) (rev y @ rev pre)" by simp
  then show False using assms by simp
qed

lemma not_endswith_last:
  assumes "x \<noteq> []" and "y \<noteq> []" and "last x \<noteq> last y"
  shows "\<not> endswith (stem @ x) y"
proof
  assume "endswith (stem @ x) y"
  then obtain pre where "stem @ x = pre @ y"
    using endswith_split by blast
  then have "last (stem @ x) = last (pre @ y)" by simp
  then show False using assms by simp
qed

text \<open>
  C5, as stated, fails on a name that ends in \<open>.fastq\<close> followed by one newline: the
  extension check accepts it, it does not end in the literal \<open>.fastq\<close>, and the
  substitution still applies, because \<open>$\<close> also matches just before a final newline.
\<close>

theorem re_sub_fastq_trailing_newline:
  "re_search_ext ''x.fastq\<newline>'' \<and> \<not> endswith ''x.fastq\<newline>'' ''.fastq''
    \<and> re_sub_fastq ''x.fastq\<newline>'' = ''x.fasta\<newline>''"
  by (simp add: re_search_ext_def matches_at_dollar_def endswith_def py_lower_def lower_char_def
      re_sub_fastq_def nl_def)

text \<open>
  C5, amended. The output path is the input path with a final \<open>.fastq\<close> replaced by
  \<open>.fasta\<close>, also when one newline follows that \<open>.fastq\<close> as the last character of the
  path. The substitution is case-sensitive. Every path that ends in neither form is left
  as it is: a name ending in \<open>.fq\<close> or in \<open>.FASTQ\<close> keeps its extension.
\<close>

theorem re_sub_fastq_rule:
  "re_sub_fastq (stem @ ''.fastq'') = stem @ ''.fasta''
   \<and> re_sub_fastq (stem @ ''.fastq\<newline>'') = stem @ ''.fasta\<newline>''
   \<and> (\<not> endswith file ''.fastq'' \<and> \<not> endswith file ''.fastq\<newline>''
        \<longrightarrow> re_sub_fastq file = file)
   \<and> re_sub_fastq (stem @ ''.fq'') = stem @ ''.fq''
   \<and> re_sub_fastq (stem @ ''.FASTQ'') = stem @ ''.FASTQ''"
proof -
  have a: "re_sub_fastq (stem @ ''.fastq'') = stem @ ''.fasta''"
    by (simp add: re_sub_fastq_def endswith_append)
  have b: "re_sub_fastq (stem @ ''.fastq\<newline>'') = stem @ ''.fasta\<newline>''"
    using not_endswith_last[of "''.fastq\<newline>''" "''.fastq''" stem]
      endswith_append[of stem "''.fastq\<newline>''"]
    by (simp add: re_sub_fastq_def nl_def)
  have c: "\<not> endswith file ''.fastq'' \<and> \<not> endswith file ''.fastq\<newline>''
      \<longrightarrow> re_sub_fastq file = file"
    by (simp add: re_sub_fastq_def nl_def)
  have d: "re_sub_fastq (stem @ ''.fq'') = stem @ ''.fq''"
    using not_endswith_append[of "''.fq''" "''.fastq''" stem]
      not_endswith_append[of "''.fq''" "''.fastq\<newline>''" stem]
    by (simp add: re_sub_fastq_def nl_def)
  have e: "re_sub_fastq (stem @ ''.FASTQ'') = stem @ ''.FASTQ''"
    using not_endswith_append[of "''.FASTQ''" "''.fastq''" stem]
      not_endswith_append[of "''.FASTQ''" "''.fastq\<newline>''" stem]
    by (simp add: re_sub_fastq_def nl_def)
  show ?thesis using a b c d e by blast
qed

theorem re_sub_fastq_rule_witness:
  "re_sub_fastq ''sample.fastq'' = ''sample.fasta'' \<and> re_sub_fastq ''sample.fq'' = ''sample.fq''
   \<and> re_sub_fastq ''SAMPLE.FASTQ'' = ''SAMPLE.FASTQ''
   \<and> re_sub_fastq ''sample.txt'' = ''sample.txt''"
  using re_sub_fastq_rule[of "''sample''" "''sample.txt''"]
    re_sub_fastq_rule[of "''SAMPLE''" "''sample.txt''"]
  by (simp add: endswith_def)

section \<open>Validation of the arguments (C3)\<close>

text \<open>The facts that evaluate the checks and the names on a concrete state.\<close>

lemmas world_eval =
  os_path_isfile_def os_access_R_def os_access_W_def file_at_def file_content_def
  os_path_getsize_def fault_at_def sniff_error_def
  re_search_ext_def matches_at_dollar_def endswith_def py_lower_def lower_char_def
  re_sub_fastq_def parent_dir_def os_path_dirname_def is_sep_def lines_of.simps take_line_def
  nl_def startswith_def first_violation_def

lemma isfile_file_at: "os_path_isfile w p \<Longrightarrow> \<exists>f. file_at w p = Some f"
  by (auto simp: os_path_isfile_def file_at_def split: option.splits node.splits)

lemma access_R_file_at: "file_at w p = Some f \<Longrightarrow> os_access_R w p = readable f"
  by (auto simp: os_access_R_def file_at_def split: option.splits node.splits)

lemma access_W_file_at: "file_at w p = Some f \<Longrightarrow> os_access_W w p = writable f"
  by (auto simp: os_access_W_def file_at_def split: option.splits node.splits)

lemma file_at_isfile: "file_at w p = Some f \<Longrightarrow> os_path_isfile w p"
  by (auto simp: os_path_isfile_def file_at_def split: option.splits node.splits)

lemma file_content_py_print [simp]: "file_content (py_print w m) p = file_content w p"
  by (simp add: file_content_def file_at_def py_print_def)

lemma fault_at_py_print [simp]: "fault_at (py_print w m) p = fault_at w p"
  by (simp add: fault_at_def py_print_def)

lemma sniff_error_py_print [simp]: "sniff_error (py_print w m) p = sniff_error w p"
  unfolding sniff_error_def file_content_py_print fault_at_py_print ..

lemma first_violation_py_print [simp]: "first_violation (py_print w m) p = first_violation w p"
proof -
  have "os_path_isfile (py_print w m) p = os_path_isfile w p"
    "os_access_R (py_print w m) p = os_access_R w p"
    "os_path_getsize (py_print w m) p = os_path_getsize w p"
    "file_content (py_print w m) p = file_content w p"
    by (simp_all add: py_print_def os_path_isfile_def os_access_R_def os_path_getsize_def
        file_content_def file_at_def)
  then show ?thesis by (simp add: first_violation_def)
qed

lemma validate_fastq_format_accessible:
  assumes "os_path_isfile w file" and "os_access_R w file"
  shows "validate_fastq_format w file =
     (case sniff_error w file of
        Some e \<Rightarrow> (False, py_print w (validating_message file e))
      | None \<Rightarrow>
          if length (lines_of (file_content w file)) < 4 then
            (False, py_print w (incomplete_message file))
          else if \<not> startswith (lines_of (file_content w file) ! 0) ''@'' then
            (False, py_print w (header_message file))
          else if \<not> startswith (lines_of (file_content w file) ! 2) ''+'' then
            (False, py_print w (separator_message file))
          else (True, w))"
proof -
  obtain f where f: "file_at w file = Some f"
    using assms(1) isfile_file_at by blast
  have r: "readable f" using assms(2) f by (simp add: access_R_file_at)
  have c: "file_content w file = content f" using f by (rule file_content_file_at)
  show ?thesis unfolding c by (rule validate_fastq_format_lines[OF f r])
qed

lemma argument_check_files_pass:
  assumes "first_violation w p = None"
  shows "argument_check_files w (p # rest) = argument_check_files w rest"
proof -
  have i: "os_path_isfile w p" and r: "os_access_R w p"
    using assms by (simp_all add: first_violation_def split: if_splits)
  show ?thesis
    using assms i r
    by (simp add: first_violation_def validate_fastq_format_accessible[OF i r]
        split: if_splits option.splits)
qed

lemma argument_check_files_fail:
  assumes "first_violation w p = Some msg"
  shows "argument_check_files w (p # rest) = (Exit 1, py_print w msg)"
proof (cases "os_path_isfile w p \<and> os_access_R w p")
  case True
  then have i: "os_path_isfile w p" and r: "os_access_R w p" by simp_all
  show ?thesis
    using assms i r
    by (simp add: first_violation_def validate_fastq_format_accessible[OF i r]
        split: if_splits option.splits)
next
  case False
  then show ?thesis
    using assms by (auto simp add: first_violation_def split: if_splits)
qed

lemma argument_check_files_stops:
  assumes "list_all (\<lambda>p. first_violation w p = None) good" and "first_violation w bad = Some msg"
  shows "argument_check_files w (good @ bad # later) = (Exit 1, py_print w msg)"
  using assms
proof (induction good)
  case Nil
  then show ?case by (simp add: argument_check_files_fail del: argument_check_files.simps)
next
  case (Cons p good)
  then show ?case by (simp add: argument_check_files_pass del: argument_check_files.simps)
qed

lemma argument_check_files_all_pass:
  assumes "list_all (\<lambda>p. first_violation w p = None) files"
  shows "argument_check_files w files = (Return True, w)"
  using assms
proof (induction files)
  case Nil
  then show ?case by simp
next
  case (Cons p files)
  then show ?case by (simp add: argument_check_files_pass del: argument_check_files.simps)
qed

lemma first_violation_names_file:
  assumes "first_violation w file = Some msg"
  shows "\<exists>pre post. msg = pre @ file @ post"
proof -
  have "msg \<in> {not_found_message file, unreadable_message file, extension_message file,
      empty_message file, incomplete_message file, header_message file, separator_message file}
      \<or> (\<exists>e. msg = validating_message file e)"
    using assms by (auto simp add: first_violation_def split: if_splits option.splits)
  then consider "msg = not_found_message file" | "msg = unreadable_message file"
    | "msg = extension_message file" | "msg = empty_message file"
    | "msg = incomplete_message file" | "msg = header_message file"
    | "msg = separator_message file" | e where "msg = validating_message file e" by blast
  then show ?thesis
  proof cases
    case 8 then show ?thesis unfolding validating_message_def by blast
  next
    case 1 then show ?thesis unfolding not_found_message_def by blast
  next
    case 2 then show ?thesis unfolding unreadable_message_def by blast
  next
    case 3 then show ?thesis unfolding extension_message_def by blast
  next
    case 4 then show ?thesis unfolding empty_message_def by blast
  next
    case 5 then show ?thesis unfolding incomplete_message_def by blast
  next
    case 6 then show ?thesis unfolding header_message_def by blast
  next
    case 7 then show ?thesis unfolding separator_message_def by blast
  qed
qed

lemma first_violation_ok: "first_violation batch_world ''ok.fastq'' = None"
  by (simp add: batch_world_def world_eval)

lemma first_violation_bad:
  "first_violation batch_world ''bad.fastq'' = Some (separator_message ''bad.fastq'')"
  by (simp add: batch_world_def world_eval)

text \<open>
  C3. \<open>argument_check\<close> checks the paths in the order given, each by existence as a
  regular file, readability, extension, size and format, in that order. When the paths of
  \<open>good\<close> pass every check and \<open>bad\<close> is the first path that fails one, the only text
  printed is the diagnostic of the first check \<open>bad\<close> fails, which contains the path
  \<open>bad\<close>; the program ends with status 1, whatever the later paths are; and the
  file system is as it was: no later path is checked and nothing is converted.
\<close>

theorem argument_check_stops_at_first_failure:
  assumes "list_all (\<lambda>p. first_violation w p = None) good"
    and "first_violation w bad = Some msg"
  shows "argument_check w (good @ bad # later) = (Exit 1, py_print w msg)
    \<and> main w (good @ bad # later) = Some (1, py_print (banner w) msg)
    \<and> (\<exists>pre post. msg = pre @ bad @ post)"
proof -
  have a: "argument_check w (good @ bad # later) = (Exit 1, py_print w msg)"
    if "list_all (\<lambda>p. first_violation w p = None) good" "first_violation w bad = Some msg"
    for w
    using that by (simp add: argument_check_def argument_check_files_stops)
  have b: "first_violation (banner w) p = first_violation w p" for p
    by (simp add: banner_def)
  have "argument_check (banner w) (good @ bad # later) = (Exit 1, py_print (banner w) msg)"
    using assms by (intro a) (simp_all add: b)
  then have m: "main w (good @ bad # later) = Some (1, py_print (banner w) msg)"
    by (simp add: main_def)
  show ?thesis
    using a[OF assms] m first_violation_names_file[OF assms(2)] by blast
qed

theorem argument_check_stops_at_first_failure_witness:
  "argument_check batch_world [''ok.fastq'', ''bad.fastq'', ''later.fastq''] =
     (Exit 1, py_print batch_world (separator_message ''bad.fastq''))
   \<and> main batch_world [''ok.fastq'', ''bad.fastq'', ''later.fastq''] =
     Some (1, py_print (banner batch_world) (separator_message ''bad.fastq''))"
  using argument_check_stops_at_first_failure[of batch_world "[''ok.fastq'']" "''bad.fastq''"
      "separator_message ''bad.fastq''" "[''later.fastq'']"]
  by (simp add: first_violation_ok first_violation_bad)

section \<open>One file of the batch\<close>

lemma overwrite_check_absent:
  "\<not> os_path_isfile w out \<Longrightarrow> overwrite_check w out = (Return (), w)"
  by (simp add: overwrite_check_def)

lemma overwrite_check_eof:
  assumes "os_path_isfile w out" and "stdin w = []"
  shows "overwrite_check w out =
     (Exit 1, w\<lparr>stdout := stdout w @ [overwrite_warning out, overwrite_prompt]\<rparr>)"
  using assms by (simp add: overwrite_check_def py_input_def py_print_def)

lemma overwrite_check_yes:
  assumes "os_path_isfile w out" and "stdin w = answer # rest"
    and "py_lower answer \<in> set [''y'', ''yes'']"
  shows "overwrite_check w out =
     (Return (), w\<lparr>stdin := rest, stdout := stdout w @ [overwrite_warning out, overwrite_prompt]\<rparr>)"
  using assms by (simp add: overwrite_check_def py_input_def py_print_def)

lemma overwrite_check_no:
  assumes "os_path_isfile w out" and "stdin w = answer # rest"
    and "py_lower answer \<notin> set [''y'', ''yes'']"
  shows "overwrite_check w out =
     (Exit 0, w\<lparr>stdin := rest,
        stdout := stdout w @ [overwrite_warning out, overwrite_prompt, cancelled_message]\<rparr>)"
  using assms by (simp add: overwrite_check_def py_input_def py_print_def)

lemma convert_file_opened:
  assumes f: "file_at w file = Some f" and r: "readable f"
    and o: "open_w w out = Inr w1" and g: "map_of (fs w1) out = Some (File g)"
    and c: "file_content w1 file = (if out = file then [] else content f)"
    and ls: "ls = (if out = file then [] else lines_of (content f))"
    and s: "out \<noteq> file \<longrightarrow> fault_at w1 file = None"
  shows "convert_file w file out =
     Some (Return (),
       finish (w1\<lparr>fs := AList.update out (File (g\<lparr>content := content g @ fasta_text 0 ls\<rparr>)) (fs w1)\<rparr>)
         file out (length ls))"
proof -
  have op: "open_r w file = Inr \<lparr>rpath = file, rpos = 0, rline = 0\<rparr>"
    using f r by (rule open_r_file_at)
  have loop: "convert_lines w1 \<lparr>rpath = file, rpos = 0, rline = 0\<rparr> out 0 =
      Some (w1\<lparr>fs := AList.update out (File (g\<lparr>content := content g @ fasta_text 0 ls\<rparr>)) (fs w1)\<rparr>,
            Inr (length ls))"
  proof (cases "out = file")
    case True
    have "convert_lines w1 \<lparr>rpath = file, rpos = 0, rline = 0\<rparr> out 0 = Some (w1, Inr 0)"
      by (rule convert_lines_at_end) (simp add: c True)
    then show ?thesis using True ls g by (simp add: update_triv)
  next
    case False
    have "convert_lines w1 \<lparr>rpath = file, rpos = 0, rline = 0\<rparr> out 0 =
      Some (w1\<lparr>fs := AList.update out (File (g\<lparr>content := content g @ fasta_text 0 ls\<rparr>)) (fs w1)\<rparr>,
            Inr (0 + length ls))"
      by (rule convert_lines_other) (use False g c ls s in simp_all)
    then show ?thesis by simp
  qed
  show ?thesis
    by (simp add: convert_file_def op o loop finish_def py_print_def)
qed

lemma open_w_file_at:
  assumes "file_at w out = Some g" and "writable g"
  shows "open_w w out = Inr (w\<lparr>fs := AList.update out (File (g\<lparr>content := []\<rparr>)) (fs w)\<rparr>)"
  using assms by (auto simp: open_w_def file_at_def split: option.splits node.splits)

lemma open_w_locked:
  assumes "file_at w out = Some g" and "\<not> writable g"
  shows "open_w w out = Inl (PermissionError out)"
  using assms by (auto simp: open_w_def file_at_def split: option.splits node.splits)

lemma convert_file_existing:
  assumes f: "file_at w file = Some f" and r: "readable f"
    and g: "file_at w out = Some g" and x: "writable g"
    and ls: "ls = (if out = file then [] else lines_of (content f))"
    and s: "out \<noteq> file \<longrightarrow> fault_at w file = None"
  shows "convert_file w file out =
     Some (Return (),
       finish (w\<lparr>fs := AList.update out (File (g\<lparr>content := fasta_text 0 ls\<rparr>)) (fs w)\<rparr>)
         file out (length ls))"
proof -
  define w1 where "w1 = w\<lparr>fs := AList.update out (File (g\<lparr>content := []\<rparr>)) (fs w)\<rparr>"
  have o: "open_w w out = Inr w1"
    unfolding w1_def using g x by (rule open_w_file_at)
  have g1: "map_of (fs w1) out = Some (File (g\<lparr>content := []\<rparr>))"
    by (simp add: w1_def update_conv')
  have c: "file_content w1 file = (if out = file then [] else content f)"
    using f by (simp add: w1_def file_content_def file_at_def update_conv')
  have s1: "out \<noteq> file \<longrightarrow> fault_at w1 file = None"
    using s by (simp add: w1_def fault_at_def update_conv')
  show ?thesis
    unfolding convert_file_opened[OF f r o g1 c ls s1] by (simp add: w1_def)
qed

lemma convert_file_new:
  assumes f: "map_of (fs w) file = Some (File f)" and r: "readable f"
    and g: "map_of (fs w) out = None" and d: "map_of (fs w) (parent_dir out) = Some (Dir dr True)"
  shows "convert_file w file out =
     Some (Return (),
       finish (w\<lparr>fs := AList.update out
           (File \<lparr>content = fasta_text 0 (lines_of (content f)), readable = True, writable = True\<rparr>)
           (fs w)\<rparr>)
         file out (length (lines_of (content f))))"
proof -
  define w1 where "w1 = w\<lparr>fs := AList.update out
      (File \<lparr>content = [], readable = True, writable = True\<rparr>) (fs w)\<rparr>"
  have ne: "out \<noteq> file" using f g by auto
  have o: "open_w w out = Inr w1"
    using g d by (simp add: open_w_def w1_def)
  have g1: "map_of (fs w1) out = Some (File \<lparr>content = [], readable = True, writable = True\<rparr>)"
    by (simp add: w1_def update_conv')
  have c: "file_content w1 file = (if out = file then [] else content f)"
    using f ne by (simp add: w1_def file_content_def update_conv')
  have ls: "lines_of (content f) = (if out = file then [] else lines_of (content f))"
    using ne by simp
  have fa: "file_at w file = Some f" using f by simp
  have s1: "out \<noteq> file \<longrightarrow> fault_at w1 file = None"
    using f by (simp add: w1_def fault_at_def update_conv')
  show ?thesis
    unfolding convert_file_opened[OF fa r o g1 c ls s1] by (simp add: w1_def)
qed

lemma fastq_to_fasta_file_absent:
  assumes "\<not> os_path_isfile w (re_sub_fastq file)"
  shows "fastq_to_fasta_file w file =
     (if \<not> os_access_W w (parent_dir (re_sub_fastq file)) then
        Some (Exit 1, py_print w (directory_message (parent_dir (re_sub_fastq file))))
      else convert_file w file (re_sub_fastq file))"
  using assms by (simp add: fastq_to_fasta_file_def overwrite_check_absent Let_def)

lemma fastq_to_fasta_file_eof:
  assumes "os_path_isfile w (re_sub_fastq file)" and "stdin w = []"
  shows "fastq_to_fasta_file w file =
     Some (Exit 1,
       w\<lparr>stdout := stdout w @ [overwrite_warning (re_sub_fastq file), overwrite_prompt]\<rparr>)"
  using assms by (simp add: fastq_to_fasta_file_def overwrite_check_eof Let_def)

lemma fastq_to_fasta_file_no:
  assumes "os_path_isfile w (re_sub_fastq file)" and "stdin w = answer # rest"
    and "py_lower answer \<notin> set [''y'', ''yes'']"
  shows "fastq_to_fasta_file w file =
     Some (Exit 0,
       w\<lparr>stdin := rest,
         stdout := stdout w
           @ [overwrite_warning (re_sub_fastq file), overwrite_prompt, cancelled_message]\<rparr>)"
  using assms by (simp add: fastq_to_fasta_file_def overwrite_check_no Let_def)

lemma fastq_to_fasta_file_yes:
  assumes "os_path_isfile w (re_sub_fastq file)" and "stdin w = answer # rest"
    and "py_lower answer \<in> set [''y'', ''yes'']"
  shows "fastq_to_fasta_file w file =
     (if \<not> os_access_W w (parent_dir (re_sub_fastq file)) then
        Some (Exit 1,
          w\<lparr>stdin := rest,
            stdout := stdout w @ [overwrite_warning (re_sub_fastq file), overwrite_prompt,
              directory_message (parent_dir (re_sub_fastq file))]\<rparr>)
      else convert_file
             (w\<lparr>stdin := rest,
                stdout := stdout w @ [overwrite_warning (re_sub_fastq file), overwrite_prompt]\<rparr>)
             file (re_sub_fastq file))"
  using assms
  by (simp add: fastq_to_fasta_file_def overwrite_check_yes Let_def os_access_W_def py_print_def)

lemma accepted_no_violation:
  assumes "fst (argument_check w [file]) = Return True"
  shows "first_violation w file = None"
proof (cases "first_violation w file")
  case None
  then show ?thesis .
next
  case (Some msg)
  then have "argument_check w [file] = (Exit 1, py_print w msg)"
    by (simp add: argument_check_def argument_check_files_fail del: argument_check_files.simps)
  then show ?thesis using assms by simp
qed

lemma convert_file_unwritable:
  assumes f: "file_at w file = Some f" and r: "readable f"
    and g: "file_at w out = Some g" and x: "\<not> writable g"
  shows "convert_file w file out =
     Some (Exit 1, py_print w (io_error_message file (PermissionError out)))"
  by (simp add: convert_file_def open_r_file_at[OF f r] open_w_locked[OF g x])

lemma fastq_to_fasta_file_in_place:
  assumes f: "file_at w file = Some f" and r: "readable f" and x: "writable f"
    and same: "re_sub_fastq file = file" and s: "stdin w = answer # rest"
    and y: "py_lower answer \<in> set [''y'', ''yes'']" and d: "os_access_W w (parent_dir file)"
  shows "fastq_to_fasta_file w file =
      Some (Return (),
        w\<lparr>fs := AList.update file (File (f\<lparr>content := []\<rparr>)) (fs w), stdin := rest,
          stdout := stdout w
            @ [overwrite_warning file, overwrite_prompt, success_message file file]\<rparr>)"
proof -
  let ?w1 = "w\<lparr>stdin := rest, stdout := stdout w @ [overwrite_warning file, overwrite_prompt]\<rparr>"
  have i: "os_path_isfile w (re_sub_fastq file)"
    using f same by (simp add: file_at_isfile)
  have f1: "file_at ?w1 file = Some f" using f by (simp add: file_at_def)
  have "fastq_to_fasta_file w file = convert_file ?w1 file file"
    using fastq_to_fasta_file_yes[OF i s y] d same by simp
  also have "\<dots> = Some (Return (),
     finish (?w1\<lparr>fs := AList.update file (File (f\<lparr>content := fasta_text 0 []\<rparr>)) (fs ?w1)\<rparr>)
       file file (length ([] :: string list)))"
    by (rule convert_file_existing[OF f1 r f1 x]) simp_all
  finally show ?thesis by (simp add: finish_def)
qed

lemma fastq_to_fasta_file_in_place_locked:
  assumes f: "file_at w file = Some f" and r: "readable f" and x: "\<not> writable f"
    and same: "re_sub_fastq file = file" and s: "stdin w = answer # rest"
    and y: "py_lower answer \<in> set [''y'', ''yes'']" and d: "os_access_W w (parent_dir file)"
  shows "fastq_to_fasta_file w file =
      Some (Exit 1,
        w\<lparr>stdin := rest,
          stdout := stdout w @ [overwrite_warning file, overwrite_prompt,
            io_error_message file (PermissionError file)]\<rparr>)"
proof -
  let ?w1 = "w\<lparr>stdin := rest, stdout := stdout w @ [overwrite_warning file, overwrite_prompt]\<rparr>"
  have i: "os_path_isfile w (re_sub_fastq file)"
    using f same by (simp add: file_at_isfile)
  have f1: "file_at ?w1 file = Some f" using f by (simp add: file_at_def)
  have "fastq_to_fasta_file w file = convert_file ?w1 file file"
    using fastq_to_fasta_file_yes[OF i s y] d same by simp
  also have "\<dots> = Some (Exit 1, py_print ?w1 (io_error_message file (PermissionError file)))"
    by (rule convert_file_unwritable[OF f1 r f1 x])
  finally show ?thesis by (simp add: py_print_def)
qed

lemma re_sub_fastq_fixed:
  assumes "re_sub_fastq file = file"
  shows "\<not> endswith file ''.fastq'' \<and> \<not> endswith file ''.fastq\<newline>''"
proof -
  have a: False if e: "endswith file ''.fastq''"
  proof -
    obtain pre where p: "file = pre @ ''.fastq''" using e endswith_split by blast
    have "re_sub_fastq file = pre @ ''.fasta''" using e by (simp add: re_sub_fastq_def p)
    then show False using assms p by simp
  qed
  have b: False if n: "\<not> endswith file ''.fastq''" and e: "endswith file ''.fastq\<newline>''"
  proof -
    obtain pre where p: "file = pre @ ''.fastq\<newline>''" using e endswith_split by blast
    have "re_sub_fastq file = pre @ ''.fasta\<newline>''"
      using e n by (simp add: re_sub_fastq_def p nl_def)
    then show False using assms p by simp
  qed
  show ?thesis using a b by blast
qed

section \<open>Output path equal to the input path (C7)\<close>

text \<open>
  C7, as stated, fails: an affirmative answer does not always empty the file. The path
  \<open>sample.fq\<close> holds one record in a file that can be read and not written, in a writable
  directory. \<open>argument_check\<close> accepts it, its output path is \<open>sample.fq\<close> itself, and the
  operator answers \<open>y\<close>; opening the file for writing then raises a \<open>PermissionError\<close>,
  the body ends the program with status 1 after the input/output diagnostic, and the file
  keeps its record. The gloss of the claim fails as well: the accepted path \<open>x.fastq\<close>
  followed by a newline does not end in \<open>.fastq\<close>, yet its output path is another path.
\<close>

theorem same_path_read_only_input_kept:
  "fst (argument_check read_only_world [''sample.fq'']) = Return True
   \<and> re_sub_fastq ''sample.fq'' = ''sample.fq''
   \<and> fastq_to_fasta_file read_only_world ''sample.fq'' =
       Some (Exit 1,
         read_only_world\<lparr>stdin := [],
           stdout := [overwrite_warning ''sample.fq'', overwrite_prompt,
             io_error_message ''sample.fq'' (PermissionError ''sample.fq'')]\<rparr>)
   \<and> file_content read_only_world ''sample.fq'' = ''@r1\<newline>ACGT\<newline>+\<newline>FFFF\<newline>''
   \<and> re_search_ext ''x.fastq\<newline>'' \<and> \<not> endswith ''x.fastq\<newline>'' ''.fastq''
   \<and> re_sub_fastq ''x.fastq\<newline>'' \<noteq> ''x.fastq\<newline>''"
proof -
  have v: "first_violation read_only_world ''sample.fq'' = None"
    by (simp add: first_violation_def read_only_world_def world_eval)
  have a: "fst (argument_check read_only_world [''sample.fq'']) = Return True"
    by (simp add: argument_check_def argument_check_files_all_pass v
        del: argument_check_files.simps)
  have s: "re_sub_fastq ''sample.fq'' = ''sample.fq''"
    by (simp add: re_sub_fastq_def endswith_def nl_def)
  have f: "file_at read_only_world ''sample.fq'' =
      Some \<lparr>content = ''@r1\<newline>ACGT\<newline>+\<newline>FFFF\<newline>'', readable = True, writable = False\<rparr>"
    by (simp add: read_only_world_def file_at_def)
  have d: "os_access_W read_only_world (parent_dir ''sample.fq'')"
    by (simp add: read_only_world_def world_eval)
  have i: "stdin read_only_world = ''y'' # []" by (simp add: read_only_world_def)
  have y: "py_lower ''y'' \<in> set [''y'', ''yes'']" by (simp add: py_lower_def lower_char_def)
  have run: "fastq_to_fasta_file read_only_world ''sample.fq'' =
       Some (Exit 1,
         read_only_world\<lparr>stdin := [],
           stdout := stdout read_only_world @ [overwrite_warning ''sample.fq'', overwrite_prompt,
             io_error_message ''sample.fq'' (PermissionError ''sample.fq'')]\<rparr>)"
    by (rule fastq_to_fasta_file_in_place_locked[OF f _ _ s i y d]) simp_all
  have o: "stdout read_only_world = []" by (simp add: read_only_world_def)
  have c: "file_content read_only_world ''sample.fq'' = ''@r1\<newline>ACGT\<newline>+\<newline>FFFF\<newline>''"
    using f by (simp add: file_content_def)
  have x: "re_search_ext ''x.fastq\<newline>'' \<and> \<not> endswith ''x.fastq\<newline>'' ''.fastq''
      \<and> re_sub_fastq ''x.fastq\<newline>'' \<noteq> ''x.fastq\<newline>''"
    by (simp add: re_search_ext_def matches_at_dollar_def re_sub_fastq_def endswith_def
        py_lower_def lower_char_def nl_def)
  show ?thesis using a s run c x unfolding o by simp
qed

text \<open>
  C7, amended. Let \<open>file\<close> be a path that \<open>argument_check\<close> accepts and whose output path
  is \<open>file\<close> itself; such a path ends neither in \<open>.fastq\<close> nor in \<open>.fastq\<close> followed by a
  newline. Then the destination exists, and every run of the loop body on \<open>file\<close> returns
  after printing the overwrite warning and the prompt. If the operator answers \<open>y\<close> or
  \<open>yes\<close> in any case: when the directory of the file is not writable, the body ends the
  program with status 1 after the diagnostic naming the directory, and the file is as it
  was; otherwise, when the file is not writable, opening it for writing fails, the body
  ends the program with status 1 after the input/output diagnostic, and the file is as it
  was; otherwise the body returns normally, the file is left empty (its text is lost and
  the output is empty), and the only further text printed is the success message: no line
  was read, and no warning about the line count appears.
\<close>

theorem same_path_overwrites_input:
  assumes "fst (argument_check w [file]) = Return True" and "re_sub_fastq file = file"
  shows "os_path_isfile w (re_sub_fastq file)
    \<and> \<not> endswith file ''.fastq'' \<and> \<not> endswith file ''.fastq\<newline>''
    \<and> (\<exists>r w'. fastq_to_fasta_file w file = Some (r, w')
          \<and> prefix (stdout w @ [overwrite_warning file, overwrite_prompt]) (stdout w'))
    \<and> (stdin w = answer # rest \<and> py_lower answer \<in> set [''y'', ''yes''] \<longrightarrow>
        fastq_to_fasta_file w file =
          (if \<not> os_access_W w (parent_dir file) then
             Some (Exit 1,
               w\<lparr>stdin := rest,
                 stdout := stdout w @ [overwrite_warning file, overwrite_prompt,
                   directory_message (parent_dir file)]\<rparr>)
           else if \<not> os_access_W w file then
             Some (Exit 1,
               w\<lparr>stdin := rest,
                 stdout := stdout w @ [overwrite_warning file, overwrite_prompt,
                   io_error_message file (PermissionError file)]\<rparr>)
           else
             Some (Return (),
               w\<lparr>fs := AList.update file
                     (File \<lparr>content = [], readable = True, writable = True\<rparr>) (fs w),
                 stdin := rest,
                 stdout := stdout w
                   @ [overwrite_warning file, overwrite_prompt, success_message file file]\<rparr>)))"
proof -
  have nv: "first_violation w file = None"
    using assms(1) by (rule accepted_no_violation)
  have i: "os_path_isfile w file" and ar: "os_access_R w file"
    using nv by (simp_all add: first_violation_def split: if_splits)
  obtain f where f: "file_at w file = Some f"
    using i isfile_file_at by blast
  have r: "readable f" using ar f by (simp add: access_R_file_at)
  have aw: "os_access_W w file = writable f" using f by (rule access_W_file_at)
  have i': "os_path_isfile w (re_sub_fastq file)" using i assms(2) by simp
  have ff: "f\<lparr>content := []\<rparr> = \<lparr>content = [], readable = True, writable = True\<rparr>" if "writable f"
    using that r by (cases f) simp
  have yes: "fastq_to_fasta_file w file =
          (if \<not> os_access_W w (parent_dir file) then
             Some (Exit 1,
               w\<lparr>stdin := rest,
                 stdout := stdout w @ [overwrite_warning file, overwrite_prompt,
                   directory_message (parent_dir file)]\<rparr>)
           else if \<not> os_access_W w file then
             Some (Exit 1,
               w\<lparr>stdin := rest,
                 stdout := stdout w @ [overwrite_warning file, overwrite_prompt,
                   io_error_message file (PermissionError file)]\<rparr>)
           else
             Some (Return (),
               w\<lparr>fs := AList.update file
                     (File \<lparr>content = [], readable = True, writable = True\<rparr>) (fs w),
                 stdin := rest,
                 stdout := stdout w
                   @ [overwrite_warning file, overwrite_prompt, success_message file file]\<rparr>))"
    if s: "stdin w = answer # rest" and y: "py_lower answer \<in> set [''y'', ''yes'']"
    for answer rest
  proof (cases "os_access_W w (parent_dir file)")
    case False
    then show ?thesis using fastq_to_fasta_file_yes[OF i' s y] assms(2) by simp
  next
    case d: True
    show ?thesis
    proof (cases "writable f")
      case True
      show ?thesis
        using fastq_to_fasta_file_in_place[OF f r True assms(2) s y d] d aw True ff by simp
    next
      case False
      show ?thesis
        using fastq_to_fasta_file_in_place_locked[OF f r False assms(2) s y d] d aw False by simp
    qed
  qed
  have fires: "\<exists>r w'. fastq_to_fasta_file w file = Some (r, w')
          \<and> prefix (stdout w @ [overwrite_warning file, overwrite_prompt]) (stdout w')"
  proof (cases "stdin w")
    case Nil
    show ?thesis
      using fastq_to_fasta_file_eof[OF i' Nil] assms(2) by simp
  next
    case (Cons a others)
    show ?thesis
    proof (cases "py_lower a \<in> set [''y'', ''yes'']")
      case False
      show ?thesis
        using fastq_to_fasta_file_no[OF i' Cons False] assms(2) by simp
    next
      case True
      show ?thesis
        unfolding yes[OF Cons True] by simp
    qed
  qed
  have n: "\<not> endswith file ''.fastq'' \<and> \<not> endswith file ''.fastq\<newline>''"
    using assms(2) by (rule re_sub_fastq_fixed)
  show ?thesis
    using i' n fires yes by blast
qed

section \<open>A directory that is not writable (C8)\<close>

text \<open>
  C8, amended. When the directory of the output path is not writable: if the output path
  is not an existing file, the loop body prints the diagnostic naming the directory and
  ends the program with status 1 without any prompt; if the output path is an existing
  file, the overwrite warning and the prompt come first, and the diagnostic and status 1
  follow an affirmative answer only, while any other answer ends the program with
  status 0 and no diagnostic. Nothing is written to the file system in any of these cases.
\<close>

theorem unwritable_directory:
  assumes "\<not> os_access_W w (parent_dir (re_sub_fastq file))"
  shows "(\<not> os_path_isfile w (re_sub_fastq file) \<longrightarrow>
        fastq_to_fasta_file w file =
          Some (Exit 1,
            w\<lparr>stdout := stdout w @ [directory_message (parent_dir (re_sub_fastq file))]\<rparr>))
    \<and> (os_path_isfile w (re_sub_fastq file) \<and> stdin w = answer # rest
          \<and> py_lower answer \<in> set [''y'', ''yes''] \<longrightarrow>
        fastq_to_fasta_file w file =
          Some (Exit 1,
            w\<lparr>stdin := rest,
              stdout := stdout w @ [overwrite_warning (re_sub_fastq file), overwrite_prompt,
                directory_message (parent_dir (re_sub_fastq file))]\<rparr>))
    \<and> (os_path_isfile w (re_sub_fastq file) \<and> stdin w = answer # rest
          \<and> py_lower answer \<notin> set [''y'', ''yes''] \<longrightarrow>
        fastq_to_fasta_file w file =
          Some (Exit 0,
            w\<lparr>stdin := rest,
              stdout := stdout w @ [overwrite_warning (re_sub_fastq file), overwrite_prompt,
                cancelled_message]\<rparr>))"
proof -
  have a: "\<not> os_path_isfile w (re_sub_fastq file) \<Longrightarrow>
        fastq_to_fasta_file w file =
          Some (Exit 1,
            w\<lparr>stdout := stdout w @ [directory_message (parent_dir (re_sub_fastq file))]\<rparr>)"
    using assms by (simp add: fastq_to_fasta_file_absent py_print_def)
  have b: "os_path_isfile w (re_sub_fastq file) \<Longrightarrow> stdin w = answer # rest
          \<Longrightarrow> py_lower answer \<in> set [''y'', ''yes''] \<Longrightarrow>
        fastq_to_fasta_file w file =
          Some (Exit 1,
            w\<lparr>stdin := rest,
              stdout := stdout w @ [overwrite_warning (re_sub_fastq file), overwrite_prompt,
                directory_message (parent_dir (re_sub_fastq file))]\<rparr>)"
    using assms by (simp add: fastq_to_fasta_file_yes)
  have c: "os_path_isfile w (re_sub_fastq file) \<Longrightarrow> stdin w = answer # rest
          \<Longrightarrow> py_lower answer \<notin> set [''y'', ''yes''] \<Longrightarrow>
        fastq_to_fasta_file w file =
          Some (Exit 0,
            w\<lparr>stdin := rest,
              stdout := stdout w @ [overwrite_warning (re_sub_fastq file), overwrite_prompt,
                cancelled_message]\<rparr>)"
    by (rule fastq_to_fasta_file_no)
  show ?thesis using a b c by blast
qed

section \<open>The answer to the overwrite prompt (C9)\<close>

lemma first_violation_banner [simp]: "first_violation (banner w) p = first_violation w p"
  by (simp add: banner_def)

text \<open>
  C9. Let the output path of \<open>file\<close> be an existing file and \<open>answer\<close> the line the
  operator types. If \<open>answer\<close>, lower-cased, is neither \<open>y\<close> nor \<open>yes\<close> (the empty
  line included), the conversion of the batch ends at once with status 0, having printed
  the warning, the prompt and the cancellation message, with the file system unchanged
  and the later files untouched; when all arguments were valid that is the status of the
  whole program. If \<open>answer\<close>, lower-cased, is \<open>y\<close> or \<open>yes\<close>, the body goes on to the
  directory check and the conversion; with a writable directory, a readable input and a
  writable output file other than the input, the old text of the output file is replaced
  by the converted text.
\<close>

theorem overwrite_answer:
  assumes "os_path_isfile w (re_sub_fastq file)" and "stdin w = answer # rest"
  shows "(py_lower answer \<notin> set [''y'', ''yes''] \<longrightarrow>
        fastq_to_fasta w (file # later) =
          Some (Exit 0,
            w\<lparr>stdin := rest,
              stdout := stdout w @ [overwrite_warning (re_sub_fastq file), overwrite_prompt,
                cancelled_message]\<rparr>))
    \<and> (py_lower answer \<notin> set [''y'', ''yes'']
          \<and> list_all (\<lambda>p. first_violation w p = None) (file # later) \<longrightarrow>
        main w (file # later) =
          Some (0,
            w\<lparr>stdin := rest,
              stdout := stdout (banner w) @ [overwrite_warning (re_sub_fastq file),
                overwrite_prompt, cancelled_message]\<rparr>))
    \<and> (py_lower answer \<in> set [''y'', ''yes''] \<longrightarrow>
        fastq_to_fasta_file w file =
          (if \<not> os_access_W w (parent_dir (re_sub_fastq file)) then
             Some (Exit 1,
               w\<lparr>stdin := rest,
                 stdout := stdout w @ [overwrite_warning (re_sub_fastq file), overwrite_prompt,
                   directory_message (parent_dir (re_sub_fastq file))]\<rparr>)
           else convert_file
                  (w\<lparr>stdin := rest,
                     stdout := stdout w
                       @ [overwrite_warning (re_sub_fastq file), overwrite_prompt]\<rparr>)
                  file (re_sub_fastq file)))
    \<and> (py_lower answer \<in> set [''y'', ''yes''] \<and> os_access_W w (parent_dir (re_sub_fastq file))
          \<and> map_of (fs w) file = Some (File f) \<and> readable f \<and> re_sub_fastq file \<noteq> file
          \<and> map_of (fs w) (re_sub_fastq file) = Some (File g) \<and> writable g \<longrightarrow>
        fastq_to_fasta_file w file =
          Some (Return (),
            w\<lparr>fs := AList.update (re_sub_fastq file)
                  (File (g\<lparr>content := fasta_text 0 (lines_of (content f))\<rparr>)) (fs w),
              stdin := rest,
              stdout := stdout w @ [overwrite_warning (re_sub_fastq file), overwrite_prompt]
                @ (if length (lines_of (content f)) mod 4 \<noteq> 0 then
                     [incomplete_records_warning file (length (lines_of (content f)))]
                   else [])
                @ [success_message file (re_sub_fastq file)]\<rparr>))"
proof -
  let ?out = "re_sub_fastq file"
  let ?no = "w\<lparr>stdin := rest,
      stdout := stdout w @ [overwrite_warning ?out, overwrite_prompt, cancelled_message]\<rparr>"
  have a: "fastq_to_fasta w (file # later) = Some (Exit 0, ?no)"
    if "py_lower answer \<notin> set [''y'', ''yes'']"
    using fastq_to_fasta_file_no[OF assms that] by simp
  have b: "main w (file # later) =
      Some (0, w\<lparr>stdin := rest,
        stdout := stdout (banner w) @ [overwrite_warning ?out, overwrite_prompt, cancelled_message]\<rparr>)"
    if n: "py_lower answer \<notin> set [''y'', ''yes'']"
      and v: "list_all (\<lambda>p. first_violation w p = None) (file # later)"
  proof -
    have v': "list_all (\<lambda>p. first_violation (banner w) p = None) (file # later)"
      using v by simp
    have ac: "argument_check (banner w) (file # later) = (Return True, banner w)"
      using argument_check_files_all_pass[OF v'] by (simp add: argument_check_def)
    have i: "os_path_isfile (banner w) ?out"
      using assms(1) by (simp add: banner_def os_path_isfile_def py_print_def)
    have s: "stdin (banner w) = answer # rest"
      using assms(2) by (simp add: banner_def py_print_def)
    have weq: "(banner w)\<lparr>stdin := rest, stdout := X\<rparr> = w\<lparr>stdin := rest, stdout := X\<rparr>" for X
      by (simp add: banner_def py_print_def)
    have ft: "fastq_to_fasta (banner w) (file # later) =
        Some (Exit 0, w\<lparr>stdin := rest,
          stdout := stdout (banner w) @ [overwrite_warning ?out, overwrite_prompt, cancelled_message]\<rparr>)"
      by (simp add: fastq_to_fasta_file_no[OF i s n] weq)
    show ?thesis
      by (simp add: main_def ac ft del: fastq_to_fasta.simps)
  qed
  have c: "fastq_to_fasta_file w file =
          (if \<not> os_access_W w (parent_dir ?out) then
             Some (Exit 1,
               w\<lparr>stdin := rest,
                 stdout := stdout w @ [overwrite_warning ?out, overwrite_prompt,
                   directory_message (parent_dir ?out)]\<rparr>)
           else convert_file
                  (w\<lparr>stdin := rest,
                     stdout := stdout w @ [overwrite_warning ?out, overwrite_prompt]\<rparr>)
                  file ?out)"
    if "py_lower answer \<in> set [''y'', ''yes'']"
    using that by (rule fastq_to_fasta_file_yes[OF assms])
  have d: "fastq_to_fasta_file w file =
          Some (Return (),
            w\<lparr>fs := AList.update ?out
                  (File (g\<lparr>content := fasta_text 0 (lines_of (content f))\<rparr>)) (fs w),
              stdin := rest,
              stdout := stdout w @ [overwrite_warning ?out, overwrite_prompt]
                @ (if length (lines_of (content f)) mod 4 \<noteq> 0 then
                     [incomplete_records_warning file (length (lines_of (content f)))]
                   else [])
                @ [success_message file ?out]\<rparr>)"
    if y: "py_lower answer \<in> set [''y'', ''yes'']" and dw: "os_access_W w (parent_dir ?out)"
      and f: "map_of (fs w) file = Some (File f)" and r: "readable f" and ne: "?out \<noteq> file"
      and g: "map_of (fs w) ?out = Some (File g)" and x: "writable g"
  proof -
    let ?w1 = "w\<lparr>stdin := rest, stdout := stdout w @ [overwrite_warning ?out, overwrite_prompt]\<rparr>"
    have "fastq_to_fasta_file w file = convert_file ?w1 file ?out"
      using c[OF y] dw by simp
    also have "\<dots> = Some (Return (),
       finish (?w1\<lparr>fs := AList.update ?out
            (File (g\<lparr>content := fasta_text 0 (lines_of (content f))\<rparr>)) (fs ?w1)\<rparr>)
         file ?out (length (lines_of (content f))))"
      by (rule convert_file_existing[where f = f]) (use f r g x ne in simp_all)
    finally show ?thesis by (simp add: finish_def)
  qed
  show ?thesis using a b c d by blast
qed

section \<open>Concrete runs\<close>

theorem same_path_overwrites_input_witness:
  "fst (argument_check in_place_world [''sample.fq'']) = Return True
   \<and> re_sub_fastq ''sample.fq'' = ''sample.fq''
   \<and> fastq_to_fasta_file in_place_world ''sample.fq'' =
      Some (Return (),
        \<lparr>fs = [(''sample.fq'', File \<lparr>content = [], readable = True, writable = True\<rparr>),
               (''.'', Dir True True)],
         stdin = [],
         stdout = [overwrite_warning ''sample.fq'', overwrite_prompt,
           success_message ''sample.fq'' ''sample.fq'']\<rparr>)"
proof -
  have v: "first_violation in_place_world ''sample.fq'' = None"
    by (simp add: in_place_world_def world_eval)
  have a: "fst (argument_check in_place_world [''sample.fq'']) = Return True"
    by (simp add: argument_check_def argument_check_files_all_pass v
        del: argument_check_files.simps)
  have s: "re_sub_fastq ''sample.fq'' = ''sample.fq''"
    by (simp add: world_eval)
  show ?thesis
    using same_path_overwrites_input[OF a s, of "''y''" "[]"] a s
    by (simp add: in_place_world_def world_eval)
qed

text \<open>
  C8, as stated, fails where the output file already exists: the prompt is issued although
  the directory is not writable, and after the answer \<open>n\<close> the program ends with status 0
  and no diagnostic about the directory.
\<close>

theorem unwritable_directory_prompts_first:
  "\<not> os_access_W locked_dir_world (parent_dir (re_sub_fastq ''a.fastq''))
   \<and> fastq_to_fasta_file locked_dir_world ''a.fastq'' =
      Some (Exit 0,
        locked_dir_world\<lparr>stdin := [],
          stdout := [overwrite_warning ''a.fasta'', overwrite_prompt, cancelled_message]\<rparr>)"
proof -
  have o: "re_sub_fastq ''a.fastq'' = ''a.fasta''"
    by (simp add: world_eval)
  have d: "\<not> os_access_W locked_dir_world (parent_dir ''a.fasta'')"
    by (simp add: locked_dir_world_def world_eval)
  have i: "os_path_isfile locked_dir_world (re_sub_fastq ''a.fastq'')"
    by (simp add: o) (simp add: locked_dir_world_def world_eval)
  have s: "stdin locked_dir_world = ''n'' # []"
    by (simp add: locked_dir_world_def)
  have n: "py_lower ''n'' \<notin> set [''y'', ''yes'']"
    by (simp add: world_eval)
  show ?thesis
    using fastq_to_fasta_file_no[OF i s n] d by (simp add: o locked_dir_world_def)
qed

theorem unwritable_directory_witness:
  "fastq_to_fasta_file locked_empty_dir_world ''a.fastq'' =
      Some (Exit 1, locked_empty_dir_world\<lparr>stdout := [directory_message ''.'']\<rparr>)
   \<and> fastq_to_fasta_file (locked_dir_world\<lparr>stdin := [''YES'']\<rparr>) ''a.fastq'' =
      Some (Exit 1,
        locked_dir_world\<lparr>stdin := [],
          stdout := [overwrite_warning ''a.fasta'', overwrite_prompt, directory_message ''.'']\<rparr>)"
proof -
  have o: "re_sub_fastq ''a.fastq'' = ''a.fasta''" and p: "parent_dir ''a.fasta'' = ''.''"
    by (simp_all add: world_eval)
  have d1: "\<not> os_access_W locked_empty_dir_world (parent_dir (re_sub_fastq ''a.fastq''))"
    by (simp add: o p) (simp add: locked_empty_dir_world_def world_eval)
  have d2: "\<not> os_access_W (locked_dir_world\<lparr>stdin := [''YES'']\<rparr>)
      (parent_dir (re_sub_fastq ''a.fastq''))"
    by (simp add: o p) (simp add: locked_dir_world_def world_eval)
  have y: "py_lower ''YES'' \<in> set [''y'', ''yes'']"
    by (simp add: world_eval)
  show ?thesis
    using unwritable_directory[OF d1, of "[]" "[]"] unwritable_directory[OF d2, of "''YES''" "[]"] y
    by (simp add: o p) (simp add: locked_dir_world_def locked_empty_dir_world_def world_eval)
qed

lemma fasta_text_record: "fasta_text 0 (lines_of ''@r1\<newline>ACGT\<newline>+\<newline>FFFF\<newline>'') = ''>r1\<newline>ACGT\<newline>''"
  by (simp add: world_eval)

theorem overwrite_answer_witness:
  "main overwrite_world [''a.fastq''] =
      Some (0,
        overwrite_world\<lparr>stdin := [''YeS''],
          stdout := stdout (banner overwrite_world)
            @ [overwrite_warning ''a.fasta'', overwrite_prompt, cancelled_message]\<rparr>)
   \<and> fastq_to_fasta_file (overwrite_world\<lparr>stdin := [''YeS'']\<rparr>) ''a.fastq'' =
      Some (Return (),
        \<lparr>fs = [(''a.fastq'',
                 File \<lparr>content = ''@r1\<newline>ACGT\<newline>+\<newline>FFFF\<newline>'', readable = True, writable = True\<rparr>),
                (''a.fasta'', File \<lparr>content = ''>r1\<newline>ACGT\<newline>'', readable = True, writable = True\<rparr>),
                (''.'', Dir True True)],
         stdin = [],
         stdout = [overwrite_warning ''a.fasta'', overwrite_prompt,
           success_message ''a.fastq'' ''a.fasta'']\<rparr>)"
proof -
  let ?f = "\<lparr>content = ''@r1\<newline>ACGT\<newline>+\<newline>FFFF\<newline>'', readable = True, writable = True\<rparr>"
  let ?g = "\<lparr>content = ''>old\<newline>TTTT\<newline>'', readable = True, writable = True\<rparr>"
  let ?w = "overwrite_world\<lparr>stdin := [''YeS'']\<rparr>"
  have o: "re_sub_fastq ''a.fastq'' = ''a.fasta''" and p: "parent_dir ''a.fasta'' = ''.''"
    by (simp_all add: world_eval)
  have i1: "os_path_isfile overwrite_world (re_sub_fastq ''a.fastq'')"
    by (simp add: o) (simp add: overwrite_world_def world_eval)
  have i2: "os_path_isfile ?w (re_sub_fastq ''a.fastq'')"
    by (simp add: o) (simp add: overwrite_world_def world_eval)
  have s1: "stdin overwrite_world = [] # [''YeS'']"
    by (simp add: overwrite_world_def)
  have s2: "stdin ?w = ''YeS'' # []"
    by simp
  have v: "list_all (\<lambda>p. first_violation overwrite_world p = None) [''a.fastq'']"
    by (simp add: overwrite_world_def world_eval)
  have n: "py_lower [] \<notin> set [''y'', ''yes'']" and y: "py_lower ''YeS'' \<in> set [''y'', ''yes'']"
    by (simp_all add: world_eval)
  have d: "os_access_W ?w (parent_dir (re_sub_fastq ''a.fastq''))"
    by (simp add: o p) (simp add: overwrite_world_def world_eval)
  have f: "map_of (fs ?w) ''a.fastq'' = Some (File ?f)"
    and g: "map_of (fs ?w) (re_sub_fastq ''a.fastq'') = Some (File ?g)"
    by (simp_all add: o) (simp_all add: overwrite_world_def)
  have ne: "re_sub_fastq ''a.fastq'' \<noteq> ''a.fastq''"
    by (simp add: o)
  have rf: "readable ?f" and xg: "writable ?g"
    by simp_all
  have l: "length (lines_of ''@r1\<newline>ACGT\<newline>+\<newline>FFFF\<newline>'') = 4"
    by (simp add: world_eval)
  have m: "main overwrite_world [''a.fastq''] =
      Some (0,
        overwrite_world\<lparr>stdin := [''YeS''],
          stdout := stdout (banner overwrite_world)
            @ [overwrite_warning (re_sub_fastq ''a.fastq''), overwrite_prompt, cancelled_message]\<rparr>)"
    using overwrite_answer[OF i1 s1, of "[]" ?f ?g] n v by blast
  have c: "fastq_to_fasta_file ?w ''a.fastq'' =
          Some (Return (),
            ?w\<lparr>fs := AList.update (re_sub_fastq ''a.fastq'')
                  (File (?g\<lparr>content := fasta_text 0 (lines_of (content ?f))\<rparr>)) (fs ?w),
              stdin := [],
              stdout := stdout ?w @ [overwrite_warning (re_sub_fastq ''a.fastq''), overwrite_prompt]
                @ (if length (lines_of (content ?f)) mod 4 \<noteq> 0 then
                     [incomplete_records_warning ''a.fastq'' (length (lines_of (content ?f)))]
                   else [])
                @ [success_message ''a.fastq'' (re_sub_fastq ''a.fastq'')]\<rparr>)"
    using overwrite_answer[OF i2 s2, of "[]" ?f ?g] y d f g ne rf xg by blast
  show ?thesis
    unfolding m c o by (simp add: fasta_text_record l overwrite_world_def)
qed

section \<open>Conversion into a new file\<close>

lemma take_line_no_newline:
  assumes "nl \<notin> set s"
  shows "take_line s = s"
proof -
  have a: "\<forall>x\<in>set s. x \<noteq> nl" using assms by auto
  have 1: "takeWhile (\<lambda>c. c \<noteq> nl) s = s" using a by (simp add: takeWhile_eq_all_conv)
  have 2: "dropWhile (\<lambda>c. c \<noteq> nl) s = []" using a by simp
  show ?thesis unfolding take_line_def 1 2 by simp
qed

lemma take_line_newline:
  assumes "nl \<in> set s"
  shows "full_line (take_line s)"
proof -
  let ?P = "\<lambda>c. c \<noteq> nl"
  have ne: "dropWhile ?P s \<noteq> []" using assms by simp
  then have "hd (dropWhile ?P s) = nl" using hd_dropWhile[of ?P s] by simp
  then have t: "take 1 (dropWhile ?P s) = [nl]" using ne by (cases "dropWhile ?P s") simp_all
  have tl: "take_line s = takeWhile ?P s @ [nl]"
    unfolding take_line_def t ..
  have "nl \<notin> set (takeWhile ?P s)" using set_takeWhileD by fastforce
  then show ?thesis by (simp add: tl full_line_def)
qed

lemma take_line_full:
  assumes "full_line l"
  shows "take_line (l @ rest) = l"
proof -
  let ?P = "\<lambda>c. c \<noteq> nl"
  obtain b where l: "l = b @ [nl]" and b: "nl \<notin> set b"
    using assms unfolding full_line_def by (metis append_butlast_last_id)
  have pb: "x \<noteq> nl" if "x \<in> set b" for x using that b by auto
  have 1: "takeWhile ?P (b @ nl # rest) = b" by (simp add: takeWhile_append2 pb)
  have 2: "dropWhile ?P (b @ nl # rest) = nl # rest" by (simp add: dropWhile_append2 pb)
  show ?thesis unfolding take_line_def l by (simp add: 1 2)
qed

lemma lines_of_full:
  assumes "full_line l"
  shows "lines_of (l @ rest) = l # lines_of rest"
proof -
  have "l \<noteq> []" using assms by (simp add: full_line_def)
  then show ?thesis
    by (subst lines_of.simps) (simp add: take_line_full[OF assms])
qed

lemma lines_of_Nil [simp]: "lines_of [] = []"
  by (subst lines_of.simps) simp

lemma lines_of_eq_Nil: "lines_of c = [] \<Longrightarrow> c = []"
  by (subst (asm) lines_of.simps) (simp split: if_splits)

lemma lines_of_Cons:
  assumes "lines_of c = l # ls"
  shows "l = take_line c \<and> ls = lines_of (drop (length l) c)"
proof -
  have "c \<noteq> []" using assms by auto
  then have "lines_of c = take_line c # lines_of (drop (length (take_line c)) c)"
    by (subst lines_of.simps) simp
  then show ?thesis using assms by simp
qed

lemma lines_of_first_full:
  assumes "lines_of c = l # l2 # ls"
  shows "full_line l"
proof -
  have l: "l = take_line c" and r: "l2 # ls = lines_of (drop (length l) c)"
    using lines_of_Cons[OF assms] by simp_all
  have "drop (length l) c \<noteq> []" using r by auto
  then have "take_line c \<noteq> c" using l by auto
  then have "nl \<in> set c" using take_line_no_newline by blast
  then show ?thesis unfolding l by (rule take_line_newline)
qed

lemma fasta_text_period: "fasta_text (n + 4) ls = fasta_text n ls"
proof (induction ls arbitrary: n)
  case Nil
  then show ?case by simp
next
  case (Cons l ls)
  have "fasta_text (Suc (n + 4)) ls = fasta_text (Suc n) ls"
    using Cons.IH[of "Suc n"] by simp
  then show ?case by simp
qed

lemma header_full:
  assumes "full_line h" and "startswith h ''@''"
  shows "full_line (''>'' @ drop 1 h)"
proof -
  obtain t where h: "h = CHR ''@'' # t"
    using assms(2) by (cases h) (simp_all add: startswith_def)
  have "t \<noteq> []" using assms(1) h by (auto simp: full_line_def nl_def)
  then show ?thesis using assms(1) by (simp add: h full_line_def nl_def)
qed

lemma lines_of_fasta_text:
  assumes "length (lines_of c) = 4 * N"
    and "\<forall>i<N. startswith (lines_of c ! (4 * i)) ''@''"
  shows "lines_of (fasta_text 0 (lines_of c)) = fasta_lines (lines_of c)"
  using assms
proof (induction N arbitrary: c)
  case 0
  then show ?case by simp
next
  case (Suc N)
  obtain h q s ql rest where ls: "lines_of c = h # q # s # ql # rest"
    using Suc.prems(1) by (cases "lines_of c" rule: fasta_lines.cases) simp_all
  define c1 where "c1 = drop (length h) c"
  define c2 where "c2 = drop (length q) c1"
  define c3 where "c3 = drop (length s) c2"
  define c4 where "c4 = drop (length ql) c3"
  have l1: "lines_of c1 = q # s # ql # rest"
    using lines_of_Cons[OF ls] by (simp add: c1_def)
  have l2: "lines_of c2 = s # ql # rest"
    using lines_of_Cons[OF l1] by (simp add: c2_def)
  have l3: "lines_of c3 = ql # rest"
    using lines_of_Cons[OF l2] by (simp add: c3_def)
  have l4: "lines_of c4 = rest"
    using lines_of_Cons[OF l3] by (simp add: c4_def)
  have fh: "full_line h" using ls by (rule lines_of_first_full)
  have fq: "full_line q" using l1 by (rule lines_of_first_full)
  have "startswith (lines_of c ! (4 * 0)) ''@''" using Suc.prems(2) by blast
  then have sh: "startswith h ''@''" by (simp add: ls)
  have len: "length (lines_of c4) = 4 * N" using Suc.prems(1) ls l4 by simp
  have hd: "\<forall>i<N. startswith (lines_of c4 ! (4 * i)) ''@''"
  proof (intro allI impI)
    fix i assume "i < N"
    then have "startswith (lines_of c ! (4 * Suc i)) ''@''" using Suc.prems(2) by blast
    moreover have "4 * Suc i = Suc (Suc (Suc (Suc (4 * i))))" by simp
    ultimately show "startswith (lines_of c4 ! (4 * i)) ''@''"
      by (simp only: ls l4 nth_Cons_Suc)
  qed
  note ih0 = Suc.IH[OF len hd]
  have ih: "lines_of (fasta_text 0 rest) = fasta_lines rest"
    using ih0 by (simp only: l4)
  have t: "fasta_text 0 (h # q # s # ql # rest) = (''>'' @ drop 1 h) @ q @ fasta_text 0 rest"
  proof -
    have m: "Suc (Suc 0) = 2" "Suc (Suc (Suc 0)) = 3" "Suc (Suc (Suc (Suc 0))) = 0 + 4"
      by simp_all
    have 1: "fasta_text 0 (h # xs) = (''>'' @ drop 1 h) @ fasta_text (Suc 0) xs" for xs by simp
    have 2: "fasta_text (Suc 0) (q # xs) = q @ fasta_text (Suc (Suc 0)) xs" for xs by simp
    have 3: "fasta_text 2 (s # xs) = fasta_text (Suc 2) xs" for xs by simp
    have 4: "fasta_text 3 (ql # xs) = fasta_text (Suc 3) xs" for xs by simp
    have "fasta_text 0 (h # q # s # ql # rest) = (''>'' @ drop 1 h) @ q @ fasta_text (0 + 4) rest"
      unfolding 1 2 m(1) 3 4 by simp
    then
    show ?thesis by (simp only: fasta_text_period)
  qed
  show ?case
    unfolding ls t
    by (simp only: lines_of_full[OF header_full[OF fh sh]] lines_of_full[OF fq] ih
        fasta_lines.simps)
qed

lemma fasta_lines_nth:
  assumes "length ls = 4 * N" and "i < N"
  shows "length (fasta_lines ls) = 2 * N
    \<and> fasta_lines ls ! (2 * i) = ''>'' @ drop 1 (ls ! (4 * i))
    \<and> fasta_lines ls ! (2 * i + 1) = ls ! (4 * i + 1)"
  using assms
proof (induction N arbitrary: ls i)
  case 0
  then show ?case by simp
next
  case (Suc N)
  obtain h q s ql rest where ls: "ls = h # q # s # ql # rest"
    using Suc.prems(1) by (cases ls rule: fasta_lines.cases) simp_all
  have len: "length rest = 4 * N" using Suc.prems(1) ls by simp
  show ?case
  proof (cases i)
    case 0
    show ?thesis
    proof (cases N)
      case 0
      then show ?thesis using len \<open>i = 0\<close> by (simp add: ls)
    next
      case (Suc M)
      then have "0 < N" by simp
      from Suc.IH[OF len this] show ?thesis using \<open>i = 0\<close> by (simp add: ls)
    qed
  next
    case (Suc j)
    then have j: "j < N" using Suc.prems(2) by simp
    from Suc.IH[OF len j] show ?thesis by (simp add: ls Suc)
  qed
qed

text \<open>
  The loop body on an input whose output path does not exist yet, in a writable directory:
  no prompt; the output file is created with the FASTA text of all lines of the input, the
  lines of a trailing partial record included; the warning about the line count is printed
  exactly when that count is not a multiple of four; the input is not touched.
\<close>

lemma fastq_to_fasta_file_fresh:
  assumes f: "map_of (fs w) file = Some (File f)" and r: "readable f"
    and o: "map_of (fs w) (re_sub_fastq file) = None"
    and d: "map_of (fs w) (parent_dir (re_sub_fastq file)) = Some (Dir dr True)"
  shows "fastq_to_fasta_file w file =
      Some (Return (),
        w\<lparr>fs := AList.update (re_sub_fastq file)
              (File \<lparr>content = fasta_text 0 (lines_of (content f)), readable = True,
                 writable = True\<rparr>) (fs w),
          stdout := stdout w
            @ (if length (lines_of (content f)) mod 4 \<noteq> 0 then
                 [incomplete_records_warning file (length (lines_of (content f)))]
               else [])
            @ [success_message file (re_sub_fastq file)]\<rparr>)"
proof -
  have i: "\<not> os_path_isfile w (re_sub_fastq file)"
    using o by (simp add: os_path_isfile_def)
  have a: "os_access_W w (parent_dir (re_sub_fastq file))"
    using d by (simp add: os_access_W_def)
  have "fastq_to_fasta_file w file = convert_file w file (re_sub_fastq file)"
    using fastq_to_fasta_file_absent[OF i] a by simp
  then show ?thesis
    by (simp add: convert_file_new[OF f r o d] finish_def)
qed

text \<open>
  The FASTA text of \<open>N\<close> whole records whose headers start with \<open>@\<close> has \<open>2 * N\<close>
  lines: line \<open>2 * i\<close> is \<open>>\<close> followed by input line \<open>4 * i\<close> without its first
  character, and line \<open>2 * i + 1\<close> is input line \<open>4 * i + 1\<close>.
\<close>

lemma fasta_of_whole_records:
  assumes "length (lines_of c) = 4 * N"
    and "\<forall>i<N. startswith (lines_of c ! (4 * i)) ''@''"
  shows "length (lines_of (fasta_text 0 (lines_of c))) = 2 * N
    \<and> (\<forall>i<N. lines_of (fasta_text 0 (lines_of c)) ! (2 * i) = ''>'' @ drop 1 (lines_of c ! (4 * i))
          \<and> lines_of (fasta_text 0 (lines_of c)) ! (2 * i + 1) = lines_of c ! (4 * i + 1))"
proof (cases N)
  case 0
  then show ?thesis using assms(1) by simp
next
  case (Suc M)
  then have "0 < N" by simp
  then show ?thesis
    unfolding lines_of_fasta_text[OF assms]
    using fasta_lines_nth[OF assms(1)] by blast
qed

text \<open>
  The whole program on one valid file that can be read to its end, with a fresh output
  path: exit status 0.
\<close>

lemma main_single_fresh:
  assumes v: "first_violation w file = None" and s: "fault_at w file = None"
    and o: "map_of (fs w) (re_sub_fastq file) = None"
    and d: "map_of (fs w) (parent_dir (re_sub_fastq file)) = Some (Dir dr True)"
  shows "main w [file] =
      Some (0,
        trailer
          (w\<lparr>fs := AList.update (re_sub_fastq file)
                (File \<lparr>content = fasta_text 0 (lines_of (file_content w file)), readable = True,
                   writable = True\<rparr>) (fs w),
            stdout := stdout (banner w)
              @ (if length (lines_of (file_content w file)) mod 4 \<noteq> 0 then
                   [incomplete_records_warning file (length (lines_of (file_content w file)))]
                 else [])
              @ [success_message file (re_sub_fastq file)]\<rparr>))"
proof -
  let ?b = "banner w"
  have fsb: "fs ?b = fs w"
    by (simp add: banner_def py_print_def)
  have i: "os_path_isfile w file" and ar: "os_access_R w file"
    using v by (simp_all add: first_violation_def split: if_splits)
  obtain f where f: "map_of (fs w) file = Some (File f)"
    using i s
    by (auto simp: os_path_isfile_def fault_at_def split: option.splits node.splits)
  have r: "readable f" using ar f by (simp add: os_access_R_def)
  have c: "file_content w file = content f" using f by (simp add: file_content_def)
  have v': "list_all (\<lambda>p. first_violation ?b p = None) [file]"
    using v by simp
  have ac: "argument_check ?b [file] = (Return True, ?b)"
    using argument_check_files_all_pass[OF v'] by (simp add: argument_check_def)
  have weq: "?b\<lparr>fs := F, stdout := X\<rparr> = w\<lparr>fs := F, stdout := X\<rparr>" for F X
    by (simp add: banner_def py_print_def)
  have ft: "fastq_to_fasta ?b [file] =
      Some (Return (),
        w\<lparr>fs := AList.update (re_sub_fastq file)
              (File \<lparr>content = fasta_text 0 (lines_of (content f)), readable = True,
                 writable = True\<rparr>) (fs w),
          stdout := stdout ?b
            @ (if length (lines_of (content f)) mod 4 \<noteq> 0 then
                 [incomplete_records_warning file (length (lines_of (content f)))]
               else [])
            @ [success_message file (re_sub_fastq file)]\<rparr>)"
    using fastq_to_fasta_file_fresh[of ?b "file" f dr]
      f r o d by (simp add: fsb weq)
  show ?thesis
    by (simp add: main_def ac ft c del: fastq_to_fasta.simps)
qed


section \<open>Inputs that are their own output (C1, C2, C6, C10)\<close>

text \<open>
  The extension check accepts \<open>.fastq\<close> and \<open>.fq\<close> in any case, the substitution renames
  only a lower-case \<open>.fastq\<close>. For every other accepted input the output path is the
  input path, and \<open>open(out_file, 'w')\<close> empties the input before its first line is read.
\<close>

text \<open>
  C1 at an input that is its own output path. \<open>reads.fq\<close> passes every check of
  \<open>argument_check\<close> and consists of one complete record, so C1 asks for an output of
  two lines, \<open>>r1\<close> and \<open>ACGT\<close>. Its output path is \<open>reads.fq\<close> itself: once the
  operator has confirmed, \<open>fastq_to_fasta\<close> returns normally and the output file has no
  line at all.
\<close>

theorem fq_input_record_lost:
  "first_violation one_record_world ''reads.fq'' = None
   \<and> lines_of (file_content one_record_world ''reads.fq'') =
        [''@r1\<newline>'', ''ACGT\<newline>'', ''+\<newline>'', ''FFFF\<newline>'']
   \<and> re_sub_fastq ''reads.fq'' = ''reads.fq''
   \<and> fastq_to_fasta one_record_world [''reads.fq''] =
      Some (Return (),
        \<lparr>fs = [(''reads.fq'', File \<lparr>content = [], readable = True, writable = True\<rparr>),
               (''.'', Dir True True)],
         stdin = [],
         stdout = [overwrite_warning ''reads.fq'', overwrite_prompt,
           success_message ''reads.fq'' ''reads.fq'']\<rparr>)"
proof -
  let ?f = "\<lparr>content = ''@r1\<newline>ACGT\<newline>+\<newline>FFFF\<newline>'', readable = True, writable = True\<rparr>"
  have v: "first_violation one_record_world ''reads.fq'' = None"
    by (simp add: one_record_world_def world_eval)
  have l: "lines_of (file_content one_record_world ''reads.fq'') =
        [''@r1\<newline>'', ''ACGT\<newline>'', ''+\<newline>'', ''FFFF\<newline>'']"
    by (simp add: one_record_world_def world_eval)
  have o: "re_sub_fastq ''reads.fq'' = ''reads.fq''"
    by (simp add: world_eval)
  have "fastq_to_fasta_file one_record_world ''reads.fq'' =
      Some (Return (),
        one_record_world\<lparr>fs := AList.update ''reads.fq'' (File (?f\<lparr>content := []\<rparr>))
            (fs one_record_world),
          stdin := [],
          stdout := stdout one_record_world
            @ [overwrite_warning ''reads.fq'', overwrite_prompt,
               success_message ''reads.fq'' ''reads.fq'']\<rparr>)"
    by (rule fastq_to_fasta_file_in_place[where answer = "''y''"])
      (simp_all add: one_record_world_def world_eval)
  then have c: "fastq_to_fasta one_record_world [''reads.fq''] =
      Some (Return (),
        \<lparr>fs = [(''reads.fq'', File \<lparr>content = [], readable = True, writable = True\<rparr>),
               (''.'', Dir True True)],
         stdin = [],
         stdout = [overwrite_warning ''reads.fq'', overwrite_prompt,
           success_message ''reads.fq'' ''reads.fq'']\<rparr>)"
    by (simp add: one_record_world_def)
  show ?thesis using v l o c by blast
qed

text \<open>
  C2 at an input that is its own output path. The sequence lines of \<open>reads.FQ\<close>, at
  positions 1 and 5, are \<open>ACGT\<close> and \<open>TTGA\<close>; the run of \<open>fastq_to_fasta\<close> on it
  returns normally and leaves an empty output: no sequence line was written.
\<close>

theorem fq_input_sequences_lost:
  "first_violation two_record_world ''reads.FQ'' = None
   \<and> lines_of (file_content two_record_world ''reads.FQ'') ! 1 = ''ACGT\<newline>''
   \<and> lines_of (file_content two_record_world ''reads.FQ'') ! 5 = ''TTGA\<newline>''
   \<and> fastq_to_fasta two_record_world [''reads.FQ''] =
      Some (Return (),
        \<lparr>fs = [(''reads.FQ'', File \<lparr>content = [], readable = True, writable = True\<rparr>),
               (''.'', Dir True True)],
         stdin = [],
         stdout = [overwrite_warning ''reads.FQ'', overwrite_prompt,
           success_message ''reads.FQ'' ''reads.FQ'']\<rparr>)"
proof -
  let ?f = "\<lparr>content = ''@r1\<newline>ACGT\<newline>+\<newline>FFFF\<newline>@r2\<newline>TTGA\<newline>+\<newline>FFFF\<newline>'',
      readable = True, writable = True\<rparr>"
  have v: "first_violation two_record_world ''reads.FQ'' = None"
    by (simp add: two_record_world_def world_eval)
  have l: "lines_of (file_content two_record_world ''reads.FQ'') =
      [''@r1\<newline>'', ''ACGT\<newline>'', ''+\<newline>'', ''FFFF\<newline>'',
       ''@r2\<newline>'', ''TTGA\<newline>'', ''+\<newline>'', ''FFFF\<newline>'']"
    by (simp add: two_record_world_def world_eval)
  have "fastq_to_fasta_file two_record_world ''reads.FQ'' =
      Some (Return (),
        two_record_world\<lparr>fs := AList.update ''reads.FQ'' (File (?f\<lparr>content := []\<rparr>))
            (fs two_record_world),
          stdin := [],
          stdout := stdout two_record_world
            @ [overwrite_warning ''reads.FQ'', overwrite_prompt,
               success_message ''reads.FQ'' ''reads.FQ'']\<rparr>)"
    by (rule fastq_to_fasta_file_in_place[where answer = "''Y''"])
      (simp_all add: two_record_world_def world_eval)
  then have c: "fastq_to_fasta two_record_world [''reads.FQ''] =
      Some (Return (),
        \<lparr>fs = [(''reads.FQ'', File \<lparr>content = [], readable = True, writable = True\<rparr>),
               (''.'', Dir True True)],
         stdin = [],
         stdout = [overwrite_warning ''reads.FQ'', overwrite_prompt,
           success_message ''reads.FQ'' ''reads.FQ'']\<rparr>)"
    by (simp add: two_record_world_def)
  show ?thesis using v c by (simp add: l)
qed

text \<open>
  C6 at an input that is its own output path. \<open>SAMPLE.FASTQ\<close> is accepted, since the
  extension check ignores case, and is not renamed, since the substitution does not. The
  program ends with status 0 and the text of the input file is gone: the input was
  opened for writing.
\<close>

theorem upper_case_input_overwritten:
  "file_content upper_case_world ''SAMPLE.FASTQ'' = ''@r1\<newline>ACGT\<newline>+\<newline>FFFF\<newline>''
   \<and> main upper_case_world [''SAMPLE.FASTQ''] =
      Some (0,
        trailer
          \<lparr>fs = [(''SAMPLE.FASTQ'', File \<lparr>content = [], readable = True, writable = True\<rparr>),
                 (''.'', Dir True True)],
           stdin = [],
           stdout = stdout (banner upper_case_world)
             @ [overwrite_warning ''SAMPLE.FASTQ'', overwrite_prompt,
                success_message ''SAMPLE.FASTQ'' ''SAMPLE.FASTQ'']\<rparr>)"
proof -
  let ?f = "\<lparr>content = ''@r1\<newline>ACGT\<newline>+\<newline>FFFF\<newline>'', readable = True, writable = True\<rparr>"
  let ?b = "banner upper_case_world"
  have fsb: "fs ?b = fs upper_case_world" and inb: "stdin ?b = stdin upper_case_world"
    by (simp_all add: banner_def py_print_def)
  have v0: "first_violation upper_case_world ''SAMPLE.FASTQ'' = None"
    by (simp add: upper_case_world_def world_eval)
  have v: "list_all (\<lambda>p. first_violation ?b p = None) [''SAMPLE.FASTQ'']"
    by (simp add: v0)
  have ac: "argument_check ?b [''SAMPLE.FASTQ''] = (Return True, ?b)"
    using argument_check_files_all_pass[OF v] by (simp add: argument_check_def)
  have "fastq_to_fasta_file ?b ''SAMPLE.FASTQ'' =
      Some (Return (),
        ?b\<lparr>fs := AList.update ''SAMPLE.FASTQ'' (File (?f\<lparr>content := []\<rparr>)) (fs ?b),
          stdin := [],
          stdout := stdout ?b
            @ [overwrite_warning ''SAMPLE.FASTQ'', overwrite_prompt,
               success_message ''SAMPLE.FASTQ'' ''SAMPLE.FASTQ'']\<rparr>)"
    by (rule fastq_to_fasta_file_in_place[where answer = "''yes''"])
      (simp_all add: fsb inb os_access_W_def file_at_def,
        simp_all add: upper_case_world_def world_eval)
  then have c: "fastq_to_fasta ?b [''SAMPLE.FASTQ''] =
      Some (Return (),
        \<lparr>fs = [(''SAMPLE.FASTQ'', File \<lparr>content = [], readable = True, writable = True\<rparr>),
               (''.'', Dir True True)],
         stdin = [],
         stdout = stdout ?b
           @ [overwrite_warning ''SAMPLE.FASTQ'', overwrite_prompt,
              success_message ''SAMPLE.FASTQ'' ''SAMPLE.FASTQ'']\<rparr>)"
    by (simp add: fsb) (simp add: upper_case_world_def)
  have m: "main upper_case_world [''SAMPLE.FASTQ''] =
      Some (0,
        trailer
          \<lparr>fs = [(''SAMPLE.FASTQ'', File \<lparr>content = [], readable = True, writable = True\<rparr>),
                 (''.'', Dir True True)],
           stdin = [],
           stdout = stdout ?b
             @ [overwrite_warning ''SAMPLE.FASTQ'', overwrite_prompt,
                success_message ''SAMPLE.FASTQ'' ''SAMPLE.FASTQ'']\<rparr>)"
    by (simp add: main_def ac c del: fastq_to_fasta.simps)
  have i: "file_content upper_case_world ''SAMPLE.FASTQ'' = ''@r1\<newline>ACGT\<newline>+\<newline>FFFF\<newline>''"
    by (simp add: upper_case_world_def file_content_def)
  show ?thesis using i m by blast
qed

text \<open>
  C10 at an input that is its own output path. \<open>sample.fq\<close> has five lines, one record
  and a stray header. The run returns normally; nothing of the partial record is emitted,
  and the only texts printed are the overwrite warning, the prompt and the success
  message: no warning about the line count.
\<close>

theorem fq_input_partial_record_unreported:
  "first_violation five_line_world ''sample.fq'' = None
   \<and> length (lines_of (file_content five_line_world ''sample.fq'')) = 5
   \<and> fastq_to_fasta five_line_world [''sample.fq''] =
      Some (Return (),
        \<lparr>fs = [(''sample.fq'', File \<lparr>content = [], readable = True, writable = True\<rparr>),
               (''.'', Dir True True)],
         stdin = [],
         stdout = [overwrite_warning ''sample.fq'', overwrite_prompt,
           success_message ''sample.fq'' ''sample.fq'']\<rparr>)"
proof -
  let ?f = "\<lparr>content = ''@r1\<newline>ACGT\<newline>+\<newline>FFFF\<newline>@r2\<newline>'', readable = True, writable = True\<rparr>"
  have v: "first_violation five_line_world ''sample.fq'' = None"
    by (simp add: five_line_world_def world_eval)
  have l: "lines_of (file_content five_line_world ''sample.fq'') =
      [''@r1\<newline>'', ''ACGT\<newline>'', ''+\<newline>'', ''FFFF\<newline>'', ''@r2\<newline>'']"
    by (simp add: five_line_world_def world_eval)
  have "fastq_to_fasta_file five_line_world ''sample.fq'' =
      Some (Return (),
        five_line_world\<lparr>fs := AList.update ''sample.fq'' (File (?f\<lparr>content := []\<rparr>))
            (fs five_line_world),
          stdin := [],
          stdout := stdout five_line_world
            @ [overwrite_warning ''sample.fq'', overwrite_prompt,
               success_message ''sample.fq'' ''sample.fq'']\<rparr>)"
    by (rule fastq_to_fasta_file_in_place[where answer = "''y''"])
      (simp_all add: five_line_world_def world_eval)
  then have c: "fastq_to_fasta five_line_world [''sample.fq''] =
      Some (Return (),
        \<lparr>fs = [(''sample.fq'', File \<lparr>content = [], readable = True, writable = True\<rparr>),
               (''.'', Dir True True)],
         stdin = [],
         stdout = [overwrite_warning ''sample.fq'', overwrite_prompt,
           success_message ''sample.fq'' ''sample.fq'']\<rparr>)"
    by (simp add: five_line_world_def)
  show ?thesis using v c by (simp add: l)
qed


end
